theory Spec2Isabelle
  imports Main "HOL-Library.Product_Lexorder"
begin

section \<open>Data model\<close>

text \<open>
  A naive Python \<open>datetime\<close> is the tuple (year, month, day, hour, minute, second,
  microsecond); Python compares two of them field by field, which is the lexicographic
  order that \<open>Product_Lexorder\<close> puts on a product. The columns \<open>start_dt\<close> and
  \<open>end_dt\<close> hold \<open>isoformat()\<close> texts; \<open>fromisoformat\<close> reads back the value
  that was written, and on these zero-padded fixed-width texts the text comparison of the
  SQL query in \<open>api_book\<close> orders as the values do, so the model keeps the values.
\<close>

type_synonym datetime = "nat \<times> nat \<times> nat \<times> nat \<times> nat \<times> nat \<times> nat"

definition minute :: "datetime \<Rightarrow> nat" where
  "minute dt = (case dt of (yr, mo, dy, hr, mi, se, us) \<Rightarrow> mi)"

text \<open>The column \<open>status\<close>: the texts 'booked' (the default), 'using' and 'cancelled'.\<close>

datatype status = Booked | Using | Cancelled

record user =
  u_id :: int
  username :: string
  password :: string
  u_is_admin :: int

record room =
  r_id :: int
  r_name :: string
  r_desc :: "string option"

text \<open>\<open>is_open\<close> is an INTEGER column read by truth value: 0 is closed.\<close>

record seat =
  s_id :: int
  room_id :: int
  seat_label :: "string option"
  seat_x :: int
  seat_y :: int
  is_open :: int
  seat_note :: "string option"

record booking =
  b_id :: int
  user_id :: int
  seat_id :: int
  start_dt :: datetime
  end_dt :: datetime
  token :: string
  status :: status
  created_at :: string

text \<open>The four tables, each in rowid order.\<close>

record db =
  users :: "user list"
  rooms :: "room list"
  seats :: "seat list"
  bookings :: "booking list"

text \<open>
  The Flask session after login: \<open>None\<close> is a session without the key \<open>user_id\<close>.
\<close>

record session =
  sess_user_id :: int
  sess_is_admin :: bool

text \<open>
  What a request reads from outside the store: \<open>datetime.now()\<close>, the text of
  \<open>uuid.uuid4()\<close> and SQLite's \<open>CURRENT_TIMESTAMP\<close>.
\<close>

record env =
  env_now :: datetime
  env_uuid4 :: string
  env_timestamp :: string

text \<open>
  Every response of the modelled routes that is not the success of the operation: the
  redirect to the login page, the two \<open>abort(403)\<close>, and the 400 and 409 answers.
  \<open>IntegrityError\<close> is the exception of an INSERT that breaks the UNIQUE constraint
  on \<open>token\<close>; \<open>OverflowError\<close> is the exception of a statement that binds a
  Python integer outside the 64-bit range of an SQLite INTEGER.
\<close>

datatype error =
    LoginRedirect
  | Forbidden
  | AdminCannotBook
  | InvalidDateTime
  | InvalidWindow_Grid
  | InvalidWindow_Order
  | ActiveBookingExists
  | SeatUnavailable
  | SeatConflict
  | IntegrityError
  | NotOwner
  | InvalidToken
  | OutsideWindow
  | AlreadyCheckedIn
  | OverflowError

section \<open>Utilities\<close>

definition overlaps :: "datetime \<Rightarrow> datetime \<Rightarrow> datetime \<Rightarrow> datetime \<Rightarrow> bool" where
  "overlaps start1 end1 start2 end2 = (\<not> (end1 \<le> start2 \<or> end2 \<le> start1))"

text \<open>
  The integers that \<open>sqlite3\<close> binds as a parameter: the signed 64-bit ones. The ids
  of the routes \<open>cancel\<close> and \<open>admin_room\<close> come from the URL and from the form,
  where any number of digits is accepted.
\<close>

definition sqlite_int :: "int \<Rightarrow> bool" where
  "sqlite_int n = (- 9223372036854775808 \<le> n \<and> n \<le> 9223372036854775807)"

text \<open>
  \<open>str.strip()\<close> without argument removes the white space at both ends; among the
  code points below 256 these are 9 to 13, 28 to 32, 133 and 160.
\<close>

definition is_space :: "char \<Rightarrow> bool" where
  "is_space c = (let n = (of_char c :: nat)
                 in (9 \<le> n \<and> n \<le> 13) \<or> (28 \<le> n \<and> n \<le> 32) \<or> n = 133 \<or> n = 160)"

definition strip :: "string \<Rightarrow> string" where
  "strip s = rev (dropWhile is_space (rev (dropWhile is_space s)))"

section \<open>Auth decorators\<close>

definition login_required :: "session option \<Rightarrow> (session \<Rightarrow> error + 'a) \<Rightarrow> error + 'a" where
  "login_required sess view =
     (case sess of None \<Rightarrow> Inl LoginRedirect | Some ss \<Rightarrow> view ss)"

definition admin_required :: "session option \<Rightarrow> (session \<Rightarrow> error + 'a) \<Rightarrow> error + 'a" where
  "admin_required sess view =
     (case sess of
        None \<Rightarrow> Inl LoginRedirect
      | Some ss \<Rightarrow> if \<not> sess_is_admin ss then Inl Forbidden else view ss)"

section \<open>Seat status for a date and time range\<close>

text \<open>
  The query \<open>SELECT * FROM bookings WHERE seat_id=? AND status != "cancelled"\<close>, shared
  by \<open>seat_status\<close> and \<open>api_book\<close>.
\<close>

definition seat_bookings :: "db \<Rightarrow> int \<Rightarrow> booking list" where
  "seat_bookings d sid =
     filter (\<lambda>b. seat_id b = sid \<and> status b \<noteq> Cancelled) (bookings d)"

datatype seat_state = St_Available | St_Booked | St_Using | St_Closed

text \<open>
  The loop \<open>for b in q\<close> of \<open>seat_status\<close>: it leaves at the first booking that
  overlaps the selection, with the state and the occupying booking.
\<close>

fun scan_bookings ::
  "booking list \<Rightarrow> datetime \<Rightarrow> datetime \<Rightarrow> datetime \<Rightarrow> seat_state \<times> booking option" where
  "scan_bookings [] s e now = (St_Available, None)"
| "scan_bookings (b # q) s e now =
     (if overlaps (start_dt b) (end_dt b) s e then
        (if status b = Using \<or> (start_dt b \<le> now \<and> now < end_dt b)
         then (St_Using, Some b)
         else (St_Booked, Some b))
      else scan_bookings q s e now)"

text \<open>The body of the loop \<open>for s in seats\<close>: the status of one seat.\<close>

definition classify_seat ::
  "db \<Rightarrow> seat \<Rightarrow> datetime \<Rightarrow> datetime \<Rightarrow> datetime \<Rightarrow> seat_state \<times> booking option" where
  "classify_seat d st s e now =
     (if is_open st = 0 then (St_Closed, None)
      else scan_bookings (seat_bookings d (s_id st)) s e now)"

text \<open>
  The request of \<open>seat_status\<close> and of \<open>api_book\<close> after \<open>parse_dt\<close>: the two
  instants are \<open>None\<close> when \<open>strptime\<close> raises.
\<close>

record status_request =
  sr_room_id :: int
  sr_start :: "datetime option"
  sr_end :: "datetime option"

definition seat_status ::
  "db \<Rightarrow> session option \<Rightarrow> datetime \<Rightarrow> status_request
   \<Rightarrow> error + (seat \<times> seat_state \<times> booking option) list" where
  "seat_status d sess now rq = login_required sess (\<lambda>ss.
     case (sr_start rq, sr_end rq) of
       (Some s, Some e) \<Rightarrow>
         if s \<ge> e then Inl InvalidWindow_Order
         else Inr (map (\<lambda>st. (st, classify_seat d st s e now))
                       (filter (\<lambda>st. room_id st = sr_room_id rq) (seats d)))
     | _ \<Rightarrow> Inl InvalidDateTime)"

section \<open>Making a booking\<close>

record book_request =
  br_seat_id :: int
  br_start :: "datetime option"
  br_end :: "datetime option"

text \<open>
  The query for an unfinished booking of the user: \<open>fetchone\<close> gives the first row
  with \<open>user_id = ?\<close>, a status other than 'cancelled' and \<open>end_dt > now\<close>.
\<close>

definition existing :: "db \<Rightarrow> int \<Rightarrow> datetime \<Rightarrow> booking option" where
  "existing d uid now =
     find (\<lambda>b. user_id b = uid \<and> status b \<noteq> Cancelled \<and> end_dt b > now) (bookings d)"

text \<open>The conflict loop of \<open>api_book\<close>: it returns at the first overlap.\<close>

fun conflict :: "booking list \<Rightarrow> datetime \<Rightarrow> datetime \<Rightarrow> bool" where
  "conflict [] s e = False"
| "conflict (b # q) s e =
     (if overlaps (start_dt b) (end_dt b) s e then True else conflict q s e)"

text \<open>
  The INSERT. The id is an AUTOINCREMENT key: one more than the largest rowid; no route
  deletes a booking, so the largest rowid ever used is the largest in the table. The column
  \<open>token\<close> is UNIQUE: a token already stored makes the INSERT raise, before the commit.
\<close>

definition last_rowid :: "booking list \<Rightarrow> int" where
  "last_rowid bs = fold (\<lambda>b m. max (b_id b) m) bs 0"

definition insert_booking ::
  "db \<Rightarrow> int \<Rightarrow> int \<Rightarrow> datetime \<Rightarrow> datetime \<Rightarrow> string \<Rightarrow> string \<Rightarrow> error + int \<times> db" where
  "insert_booking d uid sid s e tok ts =
     (if tok \<in> set (map token (bookings d)) then Inl IntegrityError
      else
        let bid = last_rowid (bookings d) + 1
        in Inr (bid, d\<lparr>bookings := bookings d @
                  [\<lparr>b_id = bid, user_id = uid, seat_id = sid, start_dt = s, end_dt = e,
                    token = tok, status = Booked, created_at = ts\<rparr>]\<rparr>))"

text \<open>The success answer carries the booking id and the token.\<close>

definition api_book ::
  "db \<Rightarrow> session option \<Rightarrow> env \<Rightarrow> book_request \<Rightarrow> error + (int \<times> string) \<times> db" where
  "api_book d sess ev rq = login_required sess (\<lambda>ss.
     if sess_is_admin ss then Inl AdminCannotBook
     else
       case (br_start rq, br_end rq) of
         (Some s, Some e) \<Rightarrow>
           if minute s mod 30 \<noteq> 0 \<or> minute e mod 30 \<noteq> 0 then Inl InvalidWindow_Grid
           else if s \<ge> e then Inl InvalidWindow_Order
           else if existing d (sess_user_id ss) (env_now ev) \<noteq> None
             then Inl ActiveBookingExists
           else
             (case find (\<lambda>st. s_id st = br_seat_id rq) (seats d) of
                None \<Rightarrow> Inl SeatUnavailable
              | Some st \<Rightarrow>
                  if is_open st = 0 then Inl SeatUnavailable
                  else if conflict (seat_bookings d (br_seat_id rq)) s e then Inl SeatConflict
                  else
                    (case insert_booking d (sess_user_id ss) (br_seat_id rq) s e
                            (env_uuid4 ev) (env_timestamp ev) of
                       Inl er \<Rightarrow> Inl er
                     | Inr (bid, d') \<Rightarrow> Inr ((bid, env_uuid4 ev), d')))
       | _ \<Rightarrow> Inl InvalidDateTime)"

text \<open>
  \<open>api_book\<close> runs its statements one by one on a connection of its own: the source
  opens no transaction before the INSERT and takes no lock. So a request is two steps for
  any other request: the checks (lines 296 to 344), which only read the store, and the
  INSERT with its commit (lines 346 to 353), which writes to the store as it is then.
\<close>

definition book_read ::
  "db \<Rightarrow> session option \<Rightarrow> env \<Rightarrow> book_request \<Rightarrow> error + session \<times> datetime \<times> datetime" where
  "book_read d sess ev rq = login_required sess (\<lambda>ss.
     if sess_is_admin ss then Inl AdminCannotBook
     else
       case (br_start rq, br_end rq) of
         (Some s, Some e) \<Rightarrow>
           if minute s mod 30 \<noteq> 0 \<or> minute e mod 30 \<noteq> 0 then Inl InvalidWindow_Grid
           else if s \<ge> e then Inl InvalidWindow_Order
           else if existing d (sess_user_id ss) (env_now ev) \<noteq> None
             then Inl ActiveBookingExists
           else
             (case find (\<lambda>st. s_id st = br_seat_id rq) (seats d) of
                None \<Rightarrow> Inl SeatUnavailable
              | Some st \<Rightarrow>
                  if is_open st = 0 then Inl SeatUnavailable
                  else if conflict (seat_bookings d (br_seat_id rq)) s e then Inl SeatConflict
                  else Inr (ss, s, e))
       | _ \<Rightarrow> Inl InvalidDateTime)"

definition book_write ::
  "db \<Rightarrow> env \<Rightarrow> book_request \<Rightarrow> session \<times> datetime \<times> datetime
   \<Rightarrow> error + (int \<times> string) \<times> db" where
  "book_write d ev rq chk =
     (case chk of (ss, s, e) \<Rightarrow>
        (case insert_booking d (sess_user_id ss) (br_seat_id rq) s e
                (env_uuid4 ev) (env_timestamp ev) of
           Inl er \<Rightarrow> Inl er
         | Inr (bid, d') \<Rightarrow> Inr ((bid, env_uuid4 ev), d')))"

text \<open>
  Two requests on one store, each with its answer. In \<open>one_after_other\<close> the second
  request starts when the first has finished. In \<open>both_read_first\<close> the two run at the
  same time and each has done its checks before either writes.
\<close>

definition one_after_other ::
  "db \<Rightarrow> session option \<times> env \<times> book_request \<Rightarrow> session option \<times> env \<times> book_request
   \<Rightarrow> (error + int \<times> string) \<times> (error + int \<times> string) \<times> db" where
  "one_after_other d c1 c2 =
     (case c1 of (sess1, ev1, rq1) \<Rightarrow> case c2 of (sess2, ev2, rq2) \<Rightarrow>
        let (a1, d1) = (case api_book d sess1 ev1 rq1 of
                          Inl er \<Rightarrow> (Inl er, d) | Inr (r, d') \<Rightarrow> (Inr r, d'));
            (a2, d2) = (case api_book d1 sess2 ev2 rq2 of
                          Inl er \<Rightarrow> (Inl er, d1) | Inr (r, d') \<Rightarrow> (Inr r, d'))
        in (a1, a2, d2))"

definition both_read_first ::
  "db \<Rightarrow> session option \<times> env \<times> book_request \<Rightarrow> session option \<times> env \<times> book_request
   \<Rightarrow> (error + int \<times> string) \<times> (error + int \<times> string) \<times> db" where
  "both_read_first d c1 c2 =
     (case c1 of (sess1, ev1, rq1) \<Rightarrow> case c2 of (sess2, ev2, rq2) \<Rightarrow>
        let k1 = book_read d sess1 ev1 rq1;
            k2 = book_read d sess2 ev2 rq2;
            (a1, d1) = (case k1 of
                          Inl er \<Rightarrow> (Inl er, d)
                        | Inr chk \<Rightarrow>
                            (case book_write d ev1 rq1 chk of
                               Inl er \<Rightarrow> (Inl er, d) | Inr (r, d') \<Rightarrow> (Inr r, d')));
            (a2, d2) = (case k2 of
                          Inl er \<Rightarrow> (Inl er, d1)
                        | Inr chk \<Rightarrow>
                            (case book_write d1 ev2 rq2 chk of
                               Inl er \<Rightarrow> (Inl er, d1) | Inr (r, d') \<Rightarrow> (Inr r, d')))
        in (a1, a2, d2))"

section \<open>Cancelling\<close>

text \<open>
  The id of the route is any non-negative integer; the SELECT by id raises for one that
  SQLite cannot bind, before anything is read or written.
\<close>

definition cancel :: "db \<Rightarrow> session option \<Rightarrow> int \<Rightarrow> error + db" where
  "cancel d sess bid = login_required sess (\<lambda>ss.
     if \<not> sqlite_int bid then Inl OverflowError
     else
       case find (\<lambda>b. b_id b = bid) (bookings d) of
         None \<Rightarrow> Inl NotOwner
       | Some b \<Rightarrow>
           if user_id b \<noteq> sess_user_id ss then Inl NotOwner
           else Inr (d\<lparr>bookings :=
                  map (\<lambda>c. if b_id c = bid then c\<lparr>status := Cancelled\<rparr> else c)
                      (bookings d)\<rparr>))"

section \<open>Validating a token\<close>

text \<open>
  The POST branch of \<open>scan\<close> (the GET branch renders the form and touches nothing);
  the success answer carries the seat id.
\<close>

definition scan :: "db \<Rightarrow> datetime \<Rightarrow> string \<Rightarrow> error + int \<times> db" where
  "scan d now form_token =
     (let tok = strip form_token
      in case find (\<lambda>b. token b = tok) (bookings d) of
           None \<Rightarrow> Inl InvalidToken
         | Some b \<Rightarrow>
             if \<not> (start_dt b \<le> now \<and> now \<le> end_dt b) then Inl OutsideWindow
             else if status b = Using then Inl AlreadyCheckedIn
             else Inr (seat_id b, d\<lparr>bookings :=
                    map (\<lambda>c. if b_id c = b_id b then c\<lparr>status := Using\<rparr> else c)
                        (bookings d)\<rparr>))"

section \<open>Admin: opening and closing seats\<close>

text \<open>
  The POST branch of \<open>admin_room\<close>; the room id of the route only names the page of
  the redirect. The form fields \<open>is_open\<close> and \<open>note\<close> may be absent; the seat
  id is whatever \<open>int\<close> reads, and the UPDATE raises for one that SQLite cannot bind.
\<close>

record seat_form =
  sf_seat_id :: int
  sf_is_open :: "string option"
  sf_note :: "string option"

definition admin_room :: "db \<Rightarrow> session option \<Rightarrow> seat_form \<Rightarrow> error + db" where
  "admin_room d sess f = admin_required sess (\<lambda>ss.
     let io = (if sf_is_open f = Some ''1'' then 1 else 0);
         nt = (case sf_note f of None \<Rightarrow> [] | Some n \<Rightarrow> n)
     in if \<not> sqlite_int (sf_seat_id f) then Inl OverflowError
        else Inr (d\<lparr>seats :=
           map (\<lambda>st. if s_id st = sf_seat_id f
                      then st\<lparr>is_open := io, seat_note := Some nt\<rparr> else st) (seats d)\<rparr>))"

section \<open>Properties of stores and requests\<close>

text \<open>The half-open intervals of two bookings have no instant in common.\<close>

definition intervals_disjoint :: "booking \<Rightarrow> booking \<Rightarrow> bool" where
  "intervals_disjoint a b = ({start_dt a ..< end_dt a} \<inter> {start_dt b ..< end_dt b} = {})"

fun pairwise_disjoint :: "booking list \<Rightarrow> bool" where
  "pairwise_disjoint [] = True"
| "pairwise_disjoint (b # bs) = ((\<forall>c \<in> set bs. intervals_disjoint b c) \<and> pairwise_disjoint bs)"

text \<open>The invariant of a seat: its bookings that are not cancelled are pairwise disjoint.\<close>

definition seat_disjoint :: "db \<Rightarrow> int \<Rightarrow> bool" where
  "seat_disjoint d sid = pairwise_disjoint (seat_bookings d sid)"

text \<open>
  A sequence of booking requests, one after the other on the store: a request that succeeds
  hands its store to the next, a rejected one leaves the store as it was.
\<close>

fun run_bookings :: "db \<Rightarrow> (session option \<times> env \<times> book_request) list \<Rightarrow> db" where
  "run_bookings d [] = d"
| "run_bookings d ((sess, ev, rq) # cs) =
     (case api_book d sess ev rq of
        Inl er \<Rightarrow> run_bookings d cs
      | Inr (r, d') \<Rightarrow> run_bookings d' cs)"

text \<open>The conditions of the checks of \<open>api_book\<close>, as properties of the store.\<close>

definition valid_window :: "datetime \<Rightarrow> datetime \<Rightarrow> bool" where
  "valid_window s e = (minute s mod 30 = 0 \<and> minute e mod 30 = 0 \<and> s < e)"

definition active_bookings :: "db \<Rightarrow> int \<Rightarrow> datetime \<Rightarrow> booking list" where
  "active_bookings d uid now =
     filter (\<lambda>b. user_id b = uid \<and> status b \<noteq> Cancelled \<and> now < end_dt b) (bookings d)"

definition seat_open :: "db \<Rightarrow> int \<Rightarrow> bool" where
  "seat_open d sid =
     (case find (\<lambda>st. s_id st = sid) (seats d) of None \<Rightarrow> False | Some st \<Rightarrow> is_open st \<noteq> 0)"

definition window_taken :: "db \<Rightarrow> int \<Rightarrow> datetime \<Rightarrow> datetime \<Rightarrow> bool" where
  "window_taken d sid s e =
     (\<exists>b \<in> set (bookings d). seat_id b = sid \<and> status b \<noteq> Cancelled
        \<and> overlaps (start_dt b) (end_dt b) s e)"

text \<open>The row that a successful \<open>api_book\<close> writes.\<close>

definition new_booking :: "db \<Rightarrow> session \<Rightarrow> env \<Rightarrow> int \<Rightarrow> datetime \<Rightarrow> datetime \<Rightarrow> booking" where
  "new_booking d ss ev sid s e =
     \<lparr>b_id = last_rowid (bookings d) + 1, user_id = sess_user_id ss, seat_id = sid,
      start_dt = s, end_dt = e, token = env_uuid4 ev, status = Booked,
      created_at = env_timestamp ev\<rparr>"

text \<open>The constraints of the schema on the table of bookings: PRIMARY KEY and UNIQUE.\<close>

definition bookings_wf :: "db \<Rightarrow> bool" where
  "bookings_wf d = (distinct (map b_id (bookings d)) \<and> distinct (map token (bookings d)))"

section \<open>An example store\<close>

text \<open>
  One room with three seats, the third closed; two students and the admin; the instants
  are those of 1 January 2024.
\<close>

definition at :: "nat \<Rightarrow> nat \<Rightarrow> datetime" where
  "at h m = (2024, 1, 1, h, m, 0, 0)"

definition ex_seat :: "int \<Rightarrow> string \<Rightarrow> int \<Rightarrow> seat" where
  "ex_seat n l opn =
     \<lparr>s_id = n, room_id = 1, seat_label = Some l, seat_x = 100, seat_y = 60,
      is_open = opn, seat_note = None\<rparr>"

definition ex_booking :: "int \<Rightarrow> int \<Rightarrow> int \<Rightarrow> datetime \<Rightarrow> datetime \<Rightarrow> string \<Rightarrow> status \<Rightarrow> booking" where
  "ex_booking n uid sid s e tok stt =
     \<lparr>b_id = n, user_id = uid, seat_id = sid, start_dt = s, end_dt = e, token = tok,
      status = stt, created_at = ''2024-01-01 00:00:00''\<rparr>"

definition ex_db :: "booking list \<Rightarrow> db" where
  "ex_db bs =
     \<lparr>users = [\<lparr>u_id = 1, username = ''student1'', password = ''pwd1'', u_is_admin = 0\<rparr>,
               \<lparr>u_id = 2, username = ''student2'', password = ''pwd2'', u_is_admin = 0\<rparr>,
               \<lparr>u_id = 3, username = ''admin'', password = ''admin'', u_is_admin = 1\<rparr>],
      rooms = [\<lparr>r_id = 1, r_name = ''Room A'', r_desc = Some ''First floor, quiet''\<rparr>],
      seats = [ex_seat 1 ''A-1'' 1, ex_seat 2 ''A-2'' 1, ex_seat 3 ''A-3'' 0],
      bookings = bs\<rparr>"

definition student :: "int \<Rightarrow> session option" where
  "student uid = Some \<lparr>sess_user_id = uid, sess_is_admin = False\<rparr>"

definition admin :: "session option" where
  "admin = Some \<lparr>sess_user_id = 3, sess_is_admin = True\<rparr>"

definition ex_env :: "datetime \<Rightarrow> string \<Rightarrow> env" where
  "ex_env now tok = \<lparr>env_now = now, env_uuid4 = tok, env_timestamp = ''2024-01-01 00:00:00''\<rparr>"

definition ex_request :: "int \<Rightarrow> datetime \<Rightarrow> datetime \<Rightarrow> book_request" where
  "ex_request sid s e = \<lparr>br_seat_id = sid, br_start = Some s, br_end = Some e\<rparr>"

section \<open>The interval test\<close>

text \<open>
  C2: \<open>overlaps\<close> is true exactly when neither interval ends at or before the start
  of the other, that is when each starts strictly before the other ends; two intervals that
  touch at a boundary (the first ends where the second starts) do not overlap.
\<close>

theorem overlaps_half_open:
  "(overlaps aStart aEnd bStart bEnd \<longleftrightarrow> \<not> (aEnd \<le> bStart \<or> bEnd \<le> aStart))
   \<and> (overlaps aStart aEnd bStart bEnd \<longleftrightarrow> bStart < aEnd \<and> aStart < bEnd)
   \<and> \<not> overlaps aStart bStart bStart bEnd"
  by (auto simp: overlaps_def)

theorem overlaps_half_open_witness:
  "overlaps (2024, 1, 1, 8, 0, 0, 0) (2024, 1, 1, 9, 0, 0, 0)
            (2024, 1, 1, 8, 30, 0, 0) (2024, 1, 1, 9, 30, 0, 0)
   \<and> \<not> overlaps (2024, 1, 1, 8, 0, 0, 0) (2024, 1, 1, 9, 0, 0, 0)
                (2024, 1, 1, 9, 0, 0, 0) (2024, 1, 1, 10, 0, 0, 0)"
  using overlaps_half_open [of "(2024, 1, 1, 8, 0, 0, 0)" "(2024, 1, 1, 9, 0, 0, 0)"
                               "(2024, 1, 1, 8, 30, 0, 0)" "(2024, 1, 1, 9, 30, 0, 0)"]
        overlaps_half_open [of "(2024, 1, 1, 8, 0, 0, 0)" "(2024, 1, 1, 9, 0, 0, 0)"
                               "(2024, 1, 1, 9, 0, 0, 0)" "(2024, 1, 1, 10, 0, 0, 0)"]
  by simp

section \<open>Facts about the booking checks\<close>

lemma conflict_iff:
  "conflict q s e \<longleftrightarrow> (\<exists>b \<in> set q. overlaps (start_dt b) (end_dt b) s e)"
  by (induction q) auto

lemma window_taken_conflict:
  "window_taken d sid s e \<longleftrightarrow> conflict (seat_bookings d sid) s e"
  by (auto simp: window_taken_def conflict_iff seat_bookings_def)

lemma existing_None_iff:
  "existing d uid now = None \<longleftrightarrow> active_bookings d uid now = []"
  by (auto simp: existing_def active_bookings_def find_None_iff filter_empty_conv)

lemma fold_max_ge:
  "a \<le> fold (\<lambda>b m. max (b_id b) m) bs a
   \<and> (\<forall>b \<in> set bs. b_id b \<le> fold (\<lambda>b m. max (b_id b) m) bs a)"
proof (induction bs arbitrary: a)
  case Nil
  show ?case by simp
next
  case (Cons x xs)
  have *: "max (b_id x) a \<le> fold (\<lambda>b m. max (b_id b) m) xs (max (b_id x) a)"
    and **: "\<forall>b \<in> set xs. b_id b \<le> fold (\<lambda>b m. max (b_id b) m) xs (max (b_id x) a)"
    using Cons.IH [of "max (b_id x) a"] by simp_all
  from * ** show ?case by auto
qed

lemma last_rowid_ge: "b \<in> set bs \<Longrightarrow> b_id b \<le> last_rowid bs"
  using fold_max_ge [of 0 bs] by (simp add: last_rowid_def)

lemma last_rowid_fresh: "last_rowid bs + 1 \<notin> b_id ` set bs"
  using last_rowid_ge by fastforce

text \<open>The two directions of the success of \<open>api_book\<close>.\<close>

lemma api_book_success:
  assumes "sess = Some ss" and "\<not> sess_is_admin ss"
    and "br_start rq = Some s" and "br_end rq = Some e"
    and "valid_window s e"
    and "active_bookings d (sess_user_id ss) (env_now ev) = []"
    and "seat_open d (br_seat_id rq)"
    and "\<not> window_taken d (br_seat_id rq) s e"
    and "env_uuid4 ev \<notin> token ` set (bookings d)"
  shows "api_book d sess ev rq =
           Inr ((last_rowid (bookings d) + 1, env_uuid4 ev),
                d\<lparr>bookings := bookings d @ [new_booking d ss ev (br_seat_id rq) s e]\<rparr>)"
proof -
  from assms(7) obtain st where st: "find (\<lambda>st. s_id st = br_seat_id rq) (seats d) = Some st"
    and op: "is_open st \<noteq> 0"
    by (auto simp: seat_open_def split: option.splits)
  have ex: "existing d (sess_user_id ss) (env_now ev) = None"
    using assms(6) by (simp add: existing_None_iff)
  have nc: "\<not> conflict (seat_bookings d (br_seat_id rq)) s e"
    using assms(8) by (simp add: window_taken_conflict)
  have vw: "minute s mod 30 = 0" "minute e mod 30 = 0" "\<not> e \<le> s"
    using assms(5) by (auto simp: valid_window_def)
  show ?thesis
    using assms(1-4,9) st op ex nc vw
    by (simp add: api_book_def login_required_def insert_booking_def new_booking_def Let_def)
qed

lemma api_book_InrD:
  assumes "api_book d sess ev rq = Inr (r, d')"
  obtains ss s e where "sess = Some ss" and "\<not> sess_is_admin ss"
    and "br_start rq = Some s" and "br_end rq = Some e"
    and "valid_window s e"
    and "active_bookings d (sess_user_id ss) (env_now ev) = []"
    and "seat_open d (br_seat_id rq)"
    and "\<not> window_taken d (br_seat_id rq) s e"
    and "env_uuid4 ev \<notin> token ` set (bookings d)"
    and "r = (last_rowid (bookings d) + 1, env_uuid4 ev)"
    and "d' = d\<lparr>bookings := bookings d @ [new_booking d ss ev (br_seat_id rq) s e]\<rparr>"
  using assms
  by (auto simp: api_book_def login_required_def insert_booking_def new_booking_def Let_def
      valid_window_def existing_None_iff [symmetric] seat_open_def window_taken_conflict
      split: option.splits if_splits sum.splits prod.splits)


lemma pairwise_disjoint_snoc:
  "pairwise_disjoint (bs @ [x]) \<longleftrightarrow>
     pairwise_disjoint bs \<and> (\<forall>c \<in> set bs. intervals_disjoint c x)"
  by (induction bs) auto

lemma not_overlaps_disjoint:
  assumes "\<not> overlaps (start_dt c) (end_dt c) s e"
    and "start_dt x = s" and "end_dt x = e"
  shows "intervals_disjoint c x"
  using assms by (auto simp: overlaps_def intervals_disjoint_def)

lemma seat_bookings_snoc:
  "seat_bookings (d\<lparr>bookings := bookings d @ [x]\<rparr>) sid =
     seat_bookings d sid @ (if seat_id x = sid \<and> status x \<noteq> Cancelled then [x] else [])"
  by (simp add: seat_bookings_def)

lemma api_book_seat_disjoint:
  assumes inv: "seat_disjoint d sid"
    and ok: "api_book d sess ev rq = Inr (r, d')"
  shows "seat_disjoint d' sid"
proof -
  from ok obtain ss s e where
    nt: "\<not> window_taken d (br_seat_id rq) s e"
    and d': "d' = d\<lparr>bookings := bookings d @ [new_booking d ss ev (br_seat_id rq) s e]\<rparr>"
    by (rule api_book_InrD)
  let ?x = "new_booking d ss ev (br_seat_id rq) s e"
  show ?thesis
  proof (cases "br_seat_id rq = sid")
    case False
    then show ?thesis
      using inv by (simp add: d' seat_disjoint_def seat_bookings_snoc new_booking_def)
  next
    case True
    have "intervals_disjoint c ?x" if "c \<in> set (seat_bookings d sid)" for c
    proof -
      from that nt True have "\<not> overlaps (start_dt c) (end_dt c) s e"
        by (auto simp: window_taken_def seat_bookings_def)
      then show ?thesis
        by (rule not_overlaps_disjoint) (simp_all add: new_booking_def)
    qed
    then show ?thesis
      using inv True
      by (simp add: d' seat_disjoint_def seat_bookings_snoc pairwise_disjoint_snoc new_booking_def)
  qed
qed

lemma run_bookings_seat_disjoint:
  "seat_disjoint d sid \<Longrightarrow> seat_disjoint (run_bookings d cs) sid"
proof (induction cs arbitrary: d)
  case Nil
  then show ?case by simp
next
  case (Cons c cs)
  obtain sess ev rq where c: "c = (sess, ev, rq)" by (cases c)
  show ?case
  proof (cases "api_book d sess ev rq")
    case (Inl er)
    then show ?thesis using Cons by (simp add: c)
  next
    case (Inr p)
    obtain r d' where p: "p = (r, d')" by (cases p)
    have "seat_disjoint d' sid"
      using Cons.prems Inr unfolding p by (rule api_book_seat_disjoint)
    then show ?thesis using Cons.IH Inr by (simp add: c p)
  qed
qed

lemma api_book_taken_rejected:
  assumes "br_start rq = Some s" and "br_end rq = Some e"
    and "window_taken d (br_seat_id rq) s e"
  shows "\<exists>er. api_book d sess ev rq = Inl er"
proof (cases "api_book d sess ev rq")
  case (Inl er)
  then show ?thesis by blast
next
  case (Inr p)
  obtain r d' where p: "p = (r, d')" by (cases p)
  from Inr [unfolded p] show ?thesis
    by (rule api_book_InrD) (use assms in simp)
qed

lemma api_book_conflict:
  assumes "sess = Some ss" and "\<not> sess_is_admin ss"
    and "br_start rq = Some s" and "br_end rq = Some e"
    and "valid_window s e"
    and "active_bookings d (sess_user_id ss) (env_now ev) = []"
    and "seat_open d (br_seat_id rq)"
    and "window_taken d (br_seat_id rq) s e"
  shows "api_book d sess ev rq = Inl SeatConflict"
proof -
  from assms(7) obtain st where st: "find (\<lambda>st. s_id st = br_seat_id rq) (seats d) = Some st"
    and op: "is_open st \<noteq> 0"
    by (auto simp: seat_open_def split: option.splits)
  have ex: "existing d (sess_user_id ss) (env_now ev) = None"
    using assms(6) by (simp add: existing_None_iff)
  have nc: "conflict (seat_bookings d (br_seat_id rq)) s e"
    using assms(8) by (simp add: window_taken_conflict)
  have vw: "minute s mod 30 = 0" "minute e mod 30 = 0" "\<not> e \<le> s"
    using assms(5) by (auto simp: valid_window_def)
  show ?thesis
    using assms(1-4) st op ex nc vw
    by (simp add: api_book_def login_required_def)
qed

section \<open>Seats stay free of double bookings\<close>

lemmas ex_defs = at_def ex_seat_def ex_booking_def ex_db_def student_def admin_def ex_env_def
  ex_request_def

lemmas op_defs = api_book_def login_required_def admin_required_def existing_def
  seat_bookings_def insert_booking_def last_rowid_def minute_def overlaps_def cancel_def
  scan_def strip_def is_space_def sqlite_int_def Let_def

text \<open>
  C1: whatever sequence of booking requests runs on a store, a seat whose bookings that are
  not cancelled were pairwise disjoint keeps them pairwise disjoint (a rejected request
  leaves the store as it was, so this covers every sequence of successful requests). The
  reason is the conflict check: a request for a window that overlaps a booking of the seat
  that is not cancelled never succeeds, and it is answered with the seat conflict as soon as
  the checks before it (admin, window, unfinished booking, seat open) have passed.
\<close>

theorem seat_disjoint_preserved:
  "(seat_disjoint d sid \<longrightarrow> seat_disjoint (run_bookings d cs) sid)
   \<and> (br_start rq = Some s \<and> br_end rq = Some e \<and> window_taken d (br_seat_id rq) s e \<longrightarrow>
        (\<exists>er. api_book d sess ev rq = Inl er)
        \<and> (sess = Some ss \<and> \<not> sess_is_admin ss \<and> valid_window s e
             \<and> active_bookings d (sess_user_id ss) (env_now ev) = []
             \<and> seat_open d (br_seat_id rq)
           \<longrightarrow> api_book d sess ev rq = Inl SeatConflict))"
  using run_bookings_seat_disjoint [of d sid cs]
    api_book_taken_rejected [of rq s e d sess ev]
    api_book_conflict [of sess ss rq s e d ev]
  by blast

theorem seat_disjoint_preserved_witness:
  "seat_disjoint (ex_db [ex_booking 1 1 1 (at 8 0) (at 9 0) ''t1'' Booked]) 1
   \<and> run_bookings (ex_db [ex_booking 1 1 1 (at 8 0) (at 9 0) ''t1'' Booked])
        [(student 2, ex_env (at 7 0) ''t2'', ex_request 1 (at 8 30) (at 9 30)),
         (student 2, ex_env (at 7 0) ''t3'', ex_request 1 (at 9 0) (at 10 0))]
       = ex_db [ex_booking 1 1 1 (at 8 0) (at 9 0) ''t1'' Booked,
                ex_booking 2 2 1 (at 9 0) (at 10 0) ''t3'' Booked]
   \<and> seat_disjoint (ex_db [ex_booking 1 1 1 (at 8 0) (at 9 0) ''t1'' Booked,
                ex_booking 2 2 1 (at 9 0) (at 10 0) ''t3'' Booked]) 1
   \<and> window_taken (ex_db [ex_booking 1 1 1 (at 8 0) (at 9 0) ''t1'' Booked]) 1
        (at 8 30) (at 9 30)
   \<and> api_book (ex_db [ex_booking 1 1 1 (at 8 0) (at 9 0) ''t1'' Booked]) (student 2)
        (ex_env (at 7 0) ''t2'') (ex_request 1 (at 8 30) (at 9 30)) = Inl SeatConflict"
proof -
  let ?d = "ex_db [ex_booking 1 1 1 (at 8 0) (at 9 0) ''t1'' Booked]"
  let ?cs = "[(student 2, ex_env (at 7 0) ''t2'', ex_request 1 (at 8 30) (at 9 30)),
              (student 2, ex_env (at 7 0) ''t3'', ex_request 1 (at 9 0) (at 10 0))]"
  let ?rq = "ex_request 1 (at 8 30) (at 9 30)"
  let ?ss = "\<lparr>sess_user_id = 2, sess_is_admin = False\<rparr>"
  let ?ev = "ex_env (at 7 0) ''t2''"
  have inv: "seat_disjoint ?d 1"
    by (simp add: ex_defs seat_disjoint_def seat_bookings_def intervals_disjoint_def)
  have run: "run_bookings ?d ?cs
       = ex_db [ex_booking 1 1 1 (at 8 0) (at 9 0) ''t1'' Booked,
                ex_booking 2 2 1 (at 9 0) (at 10 0) ''t3'' Booked]"
    by (simp add: ex_defs op_defs)
  have taken: "window_taken ?d 1 (at 8 30) (at 9 30)"
    by (simp add: ex_defs window_taken_def overlaps_def)
  have pre: "br_start ?rq = Some (at 8 30) \<and> br_end ?rq = Some (at 9 30)
      \<and> window_taken ?d (br_seat_id ?rq) (at 8 30) (at 9 30)"
    using taken by (simp add: ex_request_def)
  have pre2: "student 2 = Some ?ss \<and> \<not> sess_is_admin ?ss \<and> valid_window (at 8 30) (at 9 30)
      \<and> active_bookings ?d (sess_user_id ?ss) (env_now ?ev) = []
      \<and> seat_open ?d (br_seat_id ?rq)"
    by (simp add: ex_defs valid_window_def minute_def active_bookings_def seat_open_def)
  from seat_disjoint_preserved [of ?d 1 ?cs ?rq "at 8 30" "at 9 30" "student 2" ?ev ?ss]
    inv pre pre2
  have "seat_disjoint (run_bookings ?d ?cs) 1"
    and "api_book ?d (student 2) ?ev ?rq = Inl SeatConflict"
    by blast+
  with inv run taken show ?thesis by simp
qed

section \<open>One unfinished booking for each user\<close>

lemma api_book_active_rejected:
  assumes "active_bookings d (sess_user_id ss) (env_now ev) \<noteq> []"
  shows "\<exists>er. api_book d (Some ss) ev rq = Inl er"
proof (cases "api_book d (Some ss) ev rq")
  case (Inl er)
  then show ?thesis by blast
next
  case (Inr p)
  obtain r d' where p: "p = (r, d')" by (cases p)
  from Inr [unfolded p] show ?thesis
    by (rule api_book_InrD) (use assms in simp)
qed

lemma api_book_active_error:
  assumes "\<not> sess_is_admin ss"
    and "br_start rq = Some s" and "br_end rq = Some e"
    and "valid_window s e"
    and "active_bookings d (sess_user_id ss) (env_now ev) \<noteq> []"
  shows "api_book d (Some ss) ev rq = Inl ActiveBookingExists"
proof -
  have ex: "existing d (sess_user_id ss) (env_now ev) \<noteq> None"
    using assms(5) by (simp add: existing_None_iff)
  have vw: "minute s mod 30 = 0" "minute e mod 30 = 0" "\<not> e \<le> s"
    using assms(4) by (auto simp: valid_window_def)
  show ?thesis
    using assms(1-3) ex vw by (simp add: api_book_def login_required_def)
qed

lemma active_bookings_later:
  assumes "active_bookings d uid now = []" and "now \<le> later"
  shows "active_bookings d uid later = []"
proof -
  have "\<not> later < end_dt b" if "b \<in> set (bookings d)" "user_id b = uid" "status b \<noteq> Cancelled"
    for b
  proof -
    from assms(1) that have "\<not> now < end_dt b"
      by (auto simp: active_bookings_def filter_empty_conv)
    with assms(2) show ?thesis by auto
  qed
  then show ?thesis
    by (auto simp: active_bookings_def filter_empty_conv)
qed

lemma api_book_leaves_one_active:
  assumes ok: "api_book d (Some ss) ev rq = Inr (r, d')"
    and later: "env_now ev \<le> later"
  shows "length (active_bookings d' (sess_user_id ss) later) \<le> 1"
proof -
  from ok obtain ss' s e where ss: "Some ss = Some ss'"
    and none: "active_bookings d (sess_user_id ss') (env_now ev) = []"
    and d': "d' = d\<lparr>bookings := bookings d @ [new_booking d ss' ev (br_seat_id rq) s e]\<rparr>"
    by (rule api_book_InrD)
  from ss have eq: "ss' = ss" by simp
  have "active_bookings d (sess_user_id ss) later = []"
    using none later unfolding eq by (rule active_bookings_later)
  then show ?thesis
    by (simp add: d' active_bookings_def)
qed

text \<open>
  What \<open>api_book\<close> does for the rule: a request of a user who owns a booking, on whatever
  seat, that is not cancelled and ends after now is always rejected, and the answer is the
  unfinished-booking error as soon as the admin check and the window checks have passed. So
  a successful request leaves its user, at that instant and at every later one, with at
  most one booking that is not cancelled and ends after the instant.
\<close>

lemma api_book_one_active:
  "(active_bookings d (sess_user_id ss) (env_now ev) \<noteq> [] \<longrightarrow>
       (\<exists>er. api_book d (Some ss) ev rq = Inl er)
       \<and> (\<not> sess_is_admin ss \<and> br_start rq = Some s \<and> br_end rq = Some e
            \<and> valid_window s e
          \<longrightarrow> api_book d (Some ss) ev rq = Inl ActiveBookingExists))
   \<and> (api_book d (Some ss) ev rq = Inr (r, d') \<and> env_now ev \<le> later \<longrightarrow>
        length (active_bookings d' (sess_user_id ss) later) \<le> 1)"
  using api_book_active_rejected [of d ss ev rq]
    api_book_active_error [of ss rq s e d ev]
    api_book_leaves_one_active [of d ss ev rq r d' later]
  by blast

lemma api_book_one_active_example:
  "active_bookings (ex_db [ex_booking 1 1 2 (at 8 0) (at 9 0) ''t1'' Booked]) 1 (at 7 0)
     = [ex_booking 1 1 2 (at 8 0) (at 9 0) ''t1'' Booked]
   \<and> api_book (ex_db [ex_booking 1 1 2 (at 8 0) (at 9 0) ''t1'' Booked]) (student 1)
        (ex_env (at 7 0) ''t2'') (ex_request 1 (at 10 0) (at 11 0)) = Inl ActiveBookingExists
   \<and> api_book (ex_db []) (student 1) (ex_env (at 7 0) ''t1'') (ex_request 2 (at 8 0) (at 9 0))
       = Inr ((1, ''t1''), ex_db [ex_booking 1 1 2 (at 8 0) (at 9 0) ''t1'' Booked])
   \<and> length (active_bookings (ex_db [ex_booking 1 1 2 (at 8 0) (at 9 0) ''t1'' Booked]) 1
        (at 8 15)) \<le> 1"
proof -
  let ?b = "ex_booking 1 1 2 (at 8 0) (at 9 0) ''t1'' Booked"
  let ?ss = "\<lparr>sess_user_id = 1, sess_is_admin = False\<rparr>"
  let ?ev = "ex_env (at 7 0) ''t2''"
  let ?ev1 = "ex_env (at 7 0) ''t1''"
  let ?rq = "ex_request 1 (at 10 0) (at 11 0)"
  let ?rq1 = "ex_request 2 (at 8 0) (at 9 0)"
  have act: "active_bookings (ex_db [?b]) 1 (at 7 0) = [?b]"
    by (simp add: ex_defs active_bookings_def)
  have pre: "active_bookings (ex_db [?b]) (sess_user_id ?ss) (env_now ?ev) \<noteq> []"
    using act by (simp add: ex_env_def)
  have pre2: "\<not> sess_is_admin ?ss \<and> br_start ?rq = Some (at 10 0) \<and> br_end ?rq = Some (at 11 0)
      \<and> valid_window (at 10 0) (at 11 0)"
    by (simp add: ex_defs valid_window_def minute_def)
  have ok: "api_book (ex_db []) (Some ?ss) ?ev1 ?rq1 = Inr ((1, ''t1''), ex_db [?b])"
    by (simp add: ex_defs op_defs)
  have later: "env_now ?ev1 \<le> at 8 15"
    by (simp add: ex_defs)
  from api_book_one_active [of "ex_db [?b]" ?ss ?ev ?rq "at 10 0" "at 11 0"] pre pre2
  have rej: "api_book (ex_db [?b]) (Some ?ss) ?ev ?rq = Inl ActiveBookingExists"
    by blast
  from api_book_one_active [of "ex_db []" ?ss ?ev1 ?rq1 _ _ "(1, ''t1'')" "ex_db [?b]" "at 8 15"]
    ok later
  have one: "length (active_bookings (ex_db [?b]) (sess_user_id ?ss) (at 8 15)) \<le> 1"
    by blast
  from act rej ok one show ?thesis by (simp add: student_def)
qed

text \<open>
  Cancelling never adds an unfinished booking, and a check-in of a booking that is not
  cancelled leaves the unfinished bookings of every user as many as they were.
\<close>

lemma cancel_active_le:
  assumes "cancel d sess bid = Inr d'"
  shows "length (active_bookings d' uid now) \<le> length (active_bookings d uid now)"
proof -
  define f :: "booking \<Rightarrow> booking"
    where "f = (\<lambda>c. if b_id c = bid then c\<lparr>status := Cancelled\<rparr> else c)"
  define P :: "booking \<Rightarrow> bool"
    where "P = (\<lambda>b. user_id b = uid \<and> status b \<noteq> Cancelled \<and> now < end_dt b)"
  have imp: "P (f c) \<Longrightarrow> P c" for c
    by (auto simp: P_def f_def split: if_splits)
  from assms have d': "bookings d' = map f (bookings d)"
    by (auto simp: cancel_def login_required_def f_def split: option.splits if_splits)
  have "length (filter P (map f bs)) \<le> length (filter P bs)" for bs
  proof (induction bs)
    case Nil
    show ?case by simp
  next
    case (Cons c cs)
    with imp [of c] show ?case by auto
  qed
  then show ?thesis
    unfolding active_bookings_def d' P_def .
qed

lemma scan_keeps_active:
  assumes "scan d now ft = Inr (sid, d')"
    and "find (\<lambda>b. token b = strip ft) (bookings d) = Some b"
    and "status b \<noteq> Cancelled"
    and "distinct (map b_id (bookings d))"
  shows "length (active_bookings d' uid t) = length (active_bookings d uid t)"
proof -
  define f :: "booking \<Rightarrow> booking"
    where "f = (\<lambda>c. if b_id c = b_id b then c\<lparr>status := Using\<rparr> else c)"
  define P :: "booking \<Rightarrow> bool"
    where "P = (\<lambda>b. user_id b = uid \<and> status b \<noteq> Cancelled \<and> t < end_dt b)"
  from assms(2) have mem: "b \<in> set (bookings d)"
    by (auto simp: find_Some_iff in_set_conv_nth)
  have same: "P (f c) = P c" if "c \<in> set (bookings d)" for c
  proof (cases "b_id c = b_id b")
    case True
    with that mem assms(4) have "c = b"
      by (auto simp: distinct_map inj_on_def)
    with assms(3) show ?thesis by (simp add: P_def f_def)
  next
    case False
    then show ?thesis by (simp add: f_def)
  qed
  from assms(1,2) have d': "bookings d' = map f (bookings d)"
    by (auto simp: scan_def Let_def f_def split: if_splits)
  have "filter P (map f (bookings d)) = map f (filter (\<lambda>c. P (f c)) (bookings d))"
    by (simp add: filter_map comp_def)
  also have "filter (\<lambda>c. P (f c)) (bookings d) = filter P (bookings d)"
    using same by (intro filter_cong) simp_all
  finally have "length (filter P (map f (bookings d))) = length (filter P (bookings d))"
    by simp
  then show ?thesis
    unfolding active_bookings_def d' P_def .
qed

text \<open>
  C3: the rule that a user never holds two bookings that are not cancelled and end after
  now is the rule of the program itself (the comment above the query of \<open>api_book\<close>), and
  the program breaks it. A student books seat 1, cancels, books seat 2 for the same hour,
  and then presents the token of the cancelled booking inside its window: \<open>scan\<close> stops
  a booking in use but not a cancelled one, the cancelled booking becomes one in use, and
  the student holds two bookings that are not cancelled and end after now.
\<close>

theorem one_active_booking_broken_by_scan:
  "api_book (ex_db []) (student 1) (ex_env (at 7 0) ''t1'') (ex_request 1 (at 8 0) (at 9 0))
     = Inr ((1, ''t1''), ex_db [ex_booking 1 1 1 (at 8 0) (at 9 0) ''t1'' Booked])
   \<and> cancel (ex_db [ex_booking 1 1 1 (at 8 0) (at 9 0) ''t1'' Booked]) (student 1) 1
     = Inr (ex_db [ex_booking 1 1 1 (at 8 0) (at 9 0) ''t1'' Cancelled])
   \<and> api_book (ex_db [ex_booking 1 1 1 (at 8 0) (at 9 0) ''t1'' Cancelled]) (student 1)
       (ex_env (at 7 5) ''t2'') (ex_request 2 (at 8 0) (at 9 0))
     = Inr ((2, ''t2''), ex_db [ex_booking 1 1 1 (at 8 0) (at 9 0) ''t1'' Cancelled,
                               ex_booking 2 1 2 (at 8 0) (at 9 0) ''t2'' Booked])
   \<and> scan (ex_db [ex_booking 1 1 1 (at 8 0) (at 9 0) ''t1'' Cancelled,
                  ex_booking 2 1 2 (at 8 0) (at 9 0) ''t2'' Booked]) (at 8 15) ''t1''
     = Inr (1, ex_db [ex_booking 1 1 1 (at 8 0) (at 9 0) ''t1'' Using,
                      ex_booking 2 1 2 (at 8 0) (at 9 0) ''t2'' Booked])
   \<and> active_bookings (ex_db [ex_booking 1 1 1 (at 8 0) (at 9 0) ''t1'' Using,
                             ex_booking 2 1 2 (at 8 0) (at 9 0) ''t2'' Booked]) 1 (at 8 15)
     = [ex_booking 1 1 1 (at 8 0) (at 9 0) ''t1'' Using,
        ex_booking 2 1 2 (at 8 0) (at 9 0) ''t2'' Booked]"
  by (simp add: ex_defs op_defs active_bookings_def)

theorem one_active_booking_broken_by_scan_witness:
  "scan (ex_db [ex_booking 1 1 1 (at 8 0) (at 9 0) ''t1'' Cancelled,
                ex_booking 2 1 2 (at 8 0) (at 9 0) ''t2'' Booked]) (at 8 15) ''t1''
     = Inr (1, ex_db [ex_booking 1 1 1 (at 8 0) (at 9 0) ''t1'' Using,
                      ex_booking 2 1 2 (at 8 0) (at 9 0) ''t2'' Booked])
   \<and> length (active_bookings (ex_db [ex_booking 1 1 1 (at 8 0) (at 9 0) ''t1'' Using,
                                     ex_booking 2 1 2 (at 8 0) (at 9 0) ''t2'' Booked])
               1 (at 8 15)) = 2"
proof -
  from one_active_booking_broken_by_scan
  have "scan (ex_db [ex_booking 1 1 1 (at 8 0) (at 9 0) ''t1'' Cancelled,
                ex_booking 2 1 2 (at 8 0) (at 9 0) ''t2'' Booked]) (at 8 15) ''t1''
     = Inr (1, ex_db [ex_booking 1 1 1 (at 8 0) (at 9 0) ''t1'' Using,
                      ex_booking 2 1 2 (at 8 0) (at 9 0) ''t2'' Booked])"
    and "active_bookings (ex_db [ex_booking 1 1 1 (at 8 0) (at 9 0) ''t1'' Using,
                             ex_booking 2 1 2 (at 8 0) (at 9 0) ''t2'' Booked]) 1 (at 8 15)
     = [ex_booking 1 1 1 (at 8 0) (at 9 0) ''t1'' Using,
        ex_booking 2 1 2 (at 8 0) (at 9 0) ''t2'' Booked]"
    by blast+
  then show ?thesis by simp
qed

section \<open>Check-in\<close>

lemma find_unique_token:
  assumes "distinct (map token bs)" and "b \<in> set bs" and "token b = tok"
  shows "find (\<lambda>c. token c = tok) bs = Some b"
  using assms by (induction bs) force+

lemma map_by_id_unique:
  assumes "distinct (map b_id bs)" and "b \<in> set bs"
  shows "map (\<lambda>c. if b_id c = b_id b then f c else c) bs
       = map (\<lambda>c. if c = b then f c else c) bs"
proof (rule map_cong [OF refl])
  fix c assume "c \<in> set bs"
  with assms have "b_id c = b_id b \<longleftrightarrow> c = b"
    by (auto simp: distinct_map inj_on_def)
  then show "(if b_id c = b_id b then f c else c) = (if c = b then f c else c)"
    by simp
qed

lemma scan_invalid_iff:
  "scan d now ft = Inl InvalidToken \<longleftrightarrow> strip ft \<notin> token ` set (bookings d)"
proof (cases "find (\<lambda>b. token b = strip ft) (bookings d)")
  case None
  then have "strip ft \<notin> token ` set (bookings d)"
    by (auto simp: find_None_iff)
  then show ?thesis
    using None by (simp add: scan_def Let_def)
next
  case (Some b)
  then have "b \<in> set (bookings d)" "token b = strip ft"
    by (auto simp: find_Some_iff)
  then have "strip ft \<in> token ` set (bookings d)" by force
  then show ?thesis
    using Some by (simp add: scan_def Let_def)
qed

lemma scan_found:
  assumes wf: "bookings_wf d" and b: "b \<in> set (bookings d)" and tok: "token b = strip ft"
  shows "scan d now ft =
     (if \<not> (start_dt b \<le> now \<and> now \<le> end_dt b) then Inl OutsideWindow
      else if status b = Using then Inl AlreadyCheckedIn
      else Inr (seat_id b, d\<lparr>bookings :=
             map (\<lambda>c. if c = b then c\<lparr>status := Using\<rparr> else c) (bookings d)\<rparr>))"
proof -
  have f: "find (\<lambda>c. token c = strip ft) (bookings d) = Some b"
    using wf b tok by (intro find_unique_token) (simp_all add: bookings_wf_def)
  have m: "map (\<lambda>c. if b_id c = b_id b then c\<lparr>status := Using\<rparr> else c) (bookings d)
         = map (\<lambda>c. if c = b then c\<lparr>status := Using\<rparr> else c) (bookings d)"
    using wf b by (intro map_by_id_unique) (simp_all add: bookings_wf_def)
  show ?thesis
    by (simp add: scan_def Let_def f m)
qed

text \<open>
  C4: on a store that meets the key constraints of the schema, \<open>scan\<close> answers with the
  invalid token exactly when no booking has the token presented (its white space stripped);
  for the booking \<open>b\<close> with that token it answers with the window error exactly when now is
  not in the closed interval from start to end, with the already-checked-in error exactly
  when now is in the interval and the status is the one in use, and in every other case,
  that of a cancelled booking among them, it returns the seat of \<open>b\<close> and a store in which
  \<open>b\<close> is in use and every other row of every table is as before.
\<close>

theorem scan_outcome:
  assumes "bookings_wf d"
  shows "(scan d now ft = Inl InvalidToken \<longleftrightarrow> strip ft \<notin> token ` set (bookings d))
   \<and> (\<forall>b \<in> set (bookings d). token b = strip ft \<longrightarrow>
        (scan d now ft = Inl OutsideWindow \<longleftrightarrow> \<not> (start_dt b \<le> now \<and> now \<le> end_dt b))
      \<and> (scan d now ft = Inl AlreadyCheckedIn \<longleftrightarrow>
           start_dt b \<le> now \<and> now \<le> end_dt b \<and> status b = Using)
      \<and> (start_dt b \<le> now \<and> now \<le> end_dt b \<and> status b \<noteq> Using \<longrightarrow>
           scan d now ft = Inr (seat_id b, d\<lparr>bookings :=
               map (\<lambda>c. if c = b then c\<lparr>status := Using\<rparr> else c) (bookings d)\<rparr>)))"
proof (intro conjI ballI impI)
  show "scan d now ft = Inl InvalidToken \<longleftrightarrow> strip ft \<notin> token ` set (bookings d)"
    by (rule scan_invalid_iff)
next
  fix b assume b: "b \<in> set (bookings d)" "token b = strip ft"
  note eq = scan_found [OF assms b, of now]
  show "scan d now ft = Inl OutsideWindow \<longleftrightarrow> \<not> (start_dt b \<le> now \<and> now \<le> end_dt b)"
    unfolding eq by auto
  show "scan d now ft = Inl AlreadyCheckedIn \<longleftrightarrow>
           start_dt b \<le> now \<and> now \<le> end_dt b \<and> status b = Using"
    unfolding eq by auto
  assume "start_dt b \<le> now \<and> now \<le> end_dt b \<and> status b \<noteq> Using"
  then show "scan d now ft = Inr (seat_id b, d\<lparr>bookings :=
               map (\<lambda>c. if c = b then c\<lparr>status := Using\<rparr> else c) (bookings d)\<rparr>)"
    unfolding eq by simp
qed

theorem scan_outcome_witness:
  "bookings_wf (ex_db [ex_booking 1 1 1 (at 8 0) (at 9 0) ''t1'' Cancelled,
                       ex_booking 2 2 2 (at 8 0) (at 9 0) ''t2'' Using])
   \<and> scan (ex_db [ex_booking 1 1 1 (at 8 0) (at 9 0) ''t1'' Cancelled,
                  ex_booking 2 2 2 (at 8 0) (at 9 0) ''t2'' Using]) (at 9 0) ''t1''
       = Inr (1, ex_db [ex_booking 1 1 1 (at 8 0) (at 9 0) ''t1'' Using,
                        ex_booking 2 2 2 (at 8 0) (at 9 0) ''t2'' Using])
   \<and> scan (ex_db [ex_booking 1 1 1 (at 8 0) (at 9 0) ''t1'' Cancelled,
                  ex_booking 2 2 2 (at 8 0) (at 9 0) ''t2'' Using]) (at 7 59) ''t1''
       = Inl OutsideWindow
   \<and> scan (ex_db [ex_booking 1 1 1 (at 8 0) (at 9 0) ''t1'' Cancelled,
                  ex_booking 2 2 2 (at 8 0) (at 9 0) ''t2'' Using]) (at 8 15) ''t2''
       = Inl AlreadyCheckedIn
   \<and> scan (ex_db [ex_booking 1 1 1 (at 8 0) (at 9 0) ''t1'' Cancelled,
                  ex_booking 2 2 2 (at 8 0) (at 9 0) ''t2'' Using]) (at 8 15) ''t3''
       = Inl InvalidToken"
proof -
  let ?b1 = "ex_booking 1 1 1 (at 8 0) (at 9 0) ''t1'' Cancelled"
  let ?b2 = "ex_booking 2 2 2 (at 8 0) (at 9 0) ''t2'' Using"
  let ?d = "ex_db [?b1, ?b2]"
  have wf: "bookings_wf ?d"
    by (simp add: bookings_wf_def ex_defs)
  have s1: "strip ''t1'' = ''t1''" and s2: "strip ''t2'' = ''t2''" and s3: "strip ''t3'' = ''t3''"
    by (simp_all add: strip_def is_space_def Let_def)
  have in1: "?b1 \<in> set (bookings ?d)" and in2: "?b2 \<in> set (bookings ?d)"
    by (simp_all add: ex_db_def)
  have t1: "token ?b1 = strip ''t1''" and t2: "token ?b2 = strip ''t2''"
    by (simp_all add: s1 s2 ex_booking_def)
  have w1: "start_dt ?b1 \<le> at 9 0 \<and> at 9 0 \<le> end_dt ?b1 \<and> status ?b1 \<noteq> Using"
    by (simp add: ex_defs)
  have w2: "\<not> (start_dt ?b1 \<le> at 7 59 \<and> at 7 59 \<le> end_dt ?b1)"
    by (simp add: ex_defs)
  have w3: "start_dt ?b2 \<le> at 8 15 \<and> at 8 15 \<le> end_dt ?b2 \<and> status ?b2 = Using"
    by (simp add: ex_defs)
  have w4: "strip ''t3'' \<notin> token ` set (bookings ?d)"
    by (simp add: s3 ex_defs)
  have upd: "?d\<lparr>bookings := map (\<lambda>c. if c = ?b1 then c\<lparr>status := Using\<rparr> else c) (bookings ?d)\<rparr>
        = ex_db [ex_booking 1 1 1 (at 8 0) (at 9 0) ''t1'' Using, ?b2]"
    by (simp add: ex_defs)
  from scan_outcome [OF wf, of "at 9 0" "''t1''"] in1 t1 w1
  have "scan ?d (at 9 0) ''t1'' = Inr (seat_id ?b1, ?d\<lparr>bookings :=
               map (\<lambda>c. if c = ?b1 then c\<lparr>status := Using\<rparr> else c) (bookings ?d)\<rparr>)"
    by blast
  then have r1: "scan ?d (at 9 0) ''t1''
       = Inr (1, ex_db [ex_booking 1 1 1 (at 8 0) (at 9 0) ''t1'' Using, ?b2])"
    unfolding upd by (simp add: ex_booking_def)
  from scan_outcome [OF wf, of "at 7 59" "''t1''"] in1 t1 w2
  have r2: "scan ?d (at 7 59) ''t1'' = Inl OutsideWindow"
    by blast
  from scan_outcome [OF wf, of "at 8 15" "''t2''"] in2 t2 w3
  have r3: "scan ?d (at 8 15) ''t2'' = Inl AlreadyCheckedIn"
    by blast
  from scan_outcome [OF wf, of "at 8 15" "''t3''"] w4
  have r4: "scan ?d (at 8 15) ''t3'' = Inl InvalidToken"
    by blast
  from wf r1 r2 r3 r4 show ?thesis by blast
qed

section \<open>Seat classification\<close>

lemma scan_bookings_find:
  "scan_bookings q s e now =
     (case find (\<lambda>b. overlaps (start_dt b) (end_dt b) s e) q of
        None \<Rightarrow> (St_Available, None)
      | Some b \<Rightarrow>
          if status b = Using \<or> (start_dt b \<le> now \<and> now < end_dt b)
          then (St_Using, Some b) else (St_Booked, Some b))"
  by (induction q) simp_all

lemma scan_bookings_available_iff:
  "fst (scan_bookings q s e now) = St_Available \<longleftrightarrow>
     (\<forall>b \<in> set q. \<not> overlaps (start_dt b) (end_dt b) s e)"
  by (induction q) simp_all

text \<open>
  C5: a seat whose open flag is 0 is closed, whatever its bookings. Otherwise the state is
  decided by the first booking of the seat, among those not cancelled and in the order of
  the table, that overlaps the selected window: in use when that booking has the status in
  use or now lies in its half-open interval, booked if not; the same booking is reported as
  the occupying one. The seat is available exactly when no booking of the seat that is
  not cancelled overlaps the window.
\<close>

theorem classify_seat_first_match:
  "(is_open st = 0 \<longrightarrow> classify_seat d st s e now = (St_Closed, None))
   \<and> (is_open st \<noteq> 0 \<longrightarrow>
        classify_seat d st s e now =
          (case find (\<lambda>b. overlaps (start_dt b) (end_dt b) s e) (seat_bookings d (s_id st)) of
             None \<Rightarrow> (St_Available, None)
           | Some b \<Rightarrow>
               if status b = Using \<or> (start_dt b \<le> now \<and> now < end_dt b)
               then (St_Using, Some b) else (St_Booked, Some b)))
   \<and> (is_open st \<noteq> 0 \<longrightarrow>
        (fst (classify_seat d st s e now) = St_Available
           \<longleftrightarrow> \<not> window_taken d (s_id st) s e))"
proof (intro conjI impI)
  show "classify_seat d st s e now = (St_Closed, None)" if "is_open st = 0"
    using that by (simp add: classify_seat_def)
  show "classify_seat d st s e now =
          (case find (\<lambda>b. overlaps (start_dt b) (end_dt b) s e) (seat_bookings d (s_id st)) of
             None \<Rightarrow> (St_Available, None)
           | Some b \<Rightarrow>
               if status b = Using \<or> (start_dt b \<le> now \<and> now < end_dt b)
               then (St_Using, Some b) else (St_Booked, Some b))" if "is_open st \<noteq> 0"
    using that by (simp add: classify_seat_def scan_bookings_find)
  show "fst (classify_seat d st s e now) = St_Available \<longleftrightarrow> \<not> window_taken d (s_id st) s e"
    if "is_open st \<noteq> 0"
    using that
    by (simp add: classify_seat_def scan_bookings_available_iff window_taken_conflict conflict_iff)
qed

theorem classify_seat_first_match_witness:
  "classify_seat (ex_db [ex_booking 1 1 3 (at 8 0) (at 9 0) ''t1'' Using])
      (ex_seat 3 ''A-3'' 0) (at 8 0) (at 9 0) (at 8 15) = (St_Closed, None)
   \<and> classify_seat (ex_db [ex_booking 1 1 1 (at 8 0) (at 9 0) ''t1'' Cancelled,
                           ex_booking 2 1 1 (at 8 0) (at 9 0) ''t2'' Booked,
                           ex_booking 3 2 1 (at 9 0) (at 10 0) ''t3'' Using])
      (ex_seat 1 ''A-1'' 1) (at 8 30) (at 9 30) (at 7 0)
       = (St_Booked, Some (ex_booking 2 1 1 (at 8 0) (at 9 0) ''t2'' Booked))
   \<and> classify_seat (ex_db [ex_booking 2 1 1 (at 8 0) (at 9 0) ''t2'' Booked])
      (ex_seat 1 ''A-1'' 1) (at 8 30) (at 9 30) (at 8 15)
       = (St_Using, Some (ex_booking 2 1 1 (at 8 0) (at 9 0) ''t2'' Booked))
   \<and> fst (classify_seat (ex_db [ex_booking 2 1 1 (at 8 0) (at 9 0) ''t2'' Booked])
      (ex_seat 1 ''A-1'' 1) (at 9 0) (at 10 0) (at 8 15)) = St_Available"
proof -
  let ?b2 = "ex_booking 2 1 1 (at 8 0) (at 9 0) ''t2'' Booked"
  let ?d3 = "ex_db [ex_booking 1 1 1 (at 8 0) (at 9 0) ''t1'' Cancelled, ?b2,
                    ex_booking 3 2 1 (at 9 0) (at 10 0) ''t3'' Using]"
  have closed: "is_open (ex_seat 3 ''A-3'' 0) = 0" and opn: "is_open (ex_seat 1 ''A-1'' 1) \<noteq> 0"
    by (simp_all add: ex_seat_def)
  have free: "\<not> window_taken (ex_db [?b2]) (s_id (ex_seat 1 ''A-1'' 1)) (at 9 0) (at 10 0)"
    by (simp add: window_taken_def ex_defs overlaps_def)
  from classify_seat_first_match
    [of "ex_seat 3 ''A-3'' 0" "ex_db [ex_booking 1 1 3 (at 8 0) (at 9 0) ''t1'' Using]"
        "at 8 0" "at 9 0" "at 8 15"] closed
  have r1: "classify_seat (ex_db [ex_booking 1 1 3 (at 8 0) (at 9 0) ''t1'' Using])
      (ex_seat 3 ''A-3'' 0) (at 8 0) (at 9 0) (at 8 15) = (St_Closed, None)"
    by blast
  from classify_seat_first_match [of "ex_seat 1 ''A-1'' 1" ?d3 "at 8 30" "at 9 30" "at 7 0"] opn
  have "classify_seat ?d3 (ex_seat 1 ''A-1'' 1) (at 8 30) (at 9 30) (at 7 0) =
          (case find (\<lambda>b. overlaps (start_dt b) (end_dt b) (at 8 30) (at 9 30))
                  (seat_bookings ?d3 (s_id (ex_seat 1 ''A-1'' 1))) of
             None \<Rightarrow> (St_Available, None)
           | Some b \<Rightarrow>
               if status b = Using \<or> (start_dt b \<le> at 7 0 \<and> at 7 0 < end_dt b)
               then (St_Using, Some b) else (St_Booked, Some b))"
    by blast
  then have r2: "classify_seat ?d3 (ex_seat 1 ''A-1'' 1) (at 8 30) (at 9 30) (at 7 0)
       = (St_Booked, Some ?b2)"
    by (simp add: ex_defs seat_bookings_def overlaps_def)
  from classify_seat_first_match
    [of "ex_seat 1 ''A-1'' 1" "ex_db [?b2]" "at 8 30" "at 9 30" "at 8 15"] opn
  have "classify_seat (ex_db [?b2]) (ex_seat 1 ''A-1'' 1) (at 8 30) (at 9 30) (at 8 15) =
          (case find (\<lambda>b. overlaps (start_dt b) (end_dt b) (at 8 30) (at 9 30))
                  (seat_bookings (ex_db [?b2]) (s_id (ex_seat 1 ''A-1'' 1))) of
             None \<Rightarrow> (St_Available, None)
           | Some b \<Rightarrow>
               if status b = Using \<or> (start_dt b \<le> at 8 15 \<and> at 8 15 < end_dt b)
               then (St_Using, Some b) else (St_Booked, Some b))"
    by blast
  then have r3: "classify_seat (ex_db [?b2]) (ex_seat 1 ''A-1'' 1) (at 8 30) (at 9 30) (at 8 15)
       = (St_Using, Some ?b2)"
    by (simp add: ex_defs seat_bookings_def overlaps_def)
  from classify_seat_first_match
    [of "ex_seat 1 ''A-1'' 1" "ex_db [?b2]" "at 9 0" "at 10 0" "at 8 15"] opn free
  have r4: "fst (classify_seat (ex_db [?b2]) (ex_seat 1 ''A-1'' 1) (at 9 0) (at 10 0) (at 8 15))
       = St_Available"
    by blast
  from r1 r2 r3 r4 show ?thesis by blast
qed

section \<open>What a successful booking writes\<close>

lemma api_book_token_clash:
  assumes "\<not> sess_is_admin ss"
    and "br_start rq = Some s" and "br_end rq = Some e"
    and "valid_window s e"
    and "active_bookings d (sess_user_id ss) (env_now ev) = []"
    and "seat_open d (br_seat_id rq)"
    and "\<not> window_taken d (br_seat_id rq) s e"
    and "env_uuid4 ev \<in> token ` set (bookings d)"
  shows "api_book d (Some ss) ev rq = Inl IntegrityError"
proof -
  from assms(6) obtain st where st: "find (\<lambda>st. s_id st = br_seat_id rq) (seats d) = Some st"
    and op: "is_open st \<noteq> 0"
    by (auto simp: seat_open_def split: option.splits)
  have ex: "existing d (sess_user_id ss) (env_now ev) = None"
    using assms(5) by (simp add: existing_None_iff)
  have nc: "\<not> conflict (seat_bookings d (br_seat_id rq)) s e"
    using assms(7) by (simp add: window_taken_conflict)
  have vw: "minute s mod 30 = 0" "minute e mod 30 = 0" "\<not> e \<le> s"
    using assms(4) by (auto simp: valid_window_def)
  show ?thesis
    using assms(1-3,8) st op ex nc vw
    by (simp add: api_book_def login_required_def insert_booking_def)
qed

text \<open>
  C6: a request of a logged-in user who is not an admin, for a window on the half-hour grid
  with start before end, while the user has no unfinished booking, the seat exists and is
  open and no booking of the seat that is not cancelled overlaps the window, passes every
  check. The store then gets exactly one new row after the rows it had, all unchanged: the
  row has a new id, the user of the session, the seat and the window of the request, the
  token that \<open>uuid4\<close> produced and the status booked; its id and token are the answer. The
  token differs from every stored one: \<open>uuid4\<close> producing a token already stored is the
  only way left to fail, by the UNIQUE constraint, and then nothing is written.
\<close>

theorem api_book_persists:
  assumes "\<not> sess_is_admin ss"
    and "br_start rq = Some s" and "br_end rq = Some e"
    and "valid_window s e"
    and "active_bookings d (sess_user_id ss) (env_now ev) = []"
    and "seat_open d (br_seat_id rq)"
    and "\<not> window_taken d (br_seat_id rq) s e"
  shows "(env_uuid4 ev \<notin> token ` set (bookings d) \<longrightarrow>
            api_book d (Some ss) ev rq =
              Inr ((b_id (new_booking d ss ev (br_seat_id rq) s e), env_uuid4 ev),
                   d\<lparr>bookings := bookings d @ [new_booking d ss ev (br_seat_id rq) s e]\<rparr>))
     \<and> (env_uuid4 ev \<in> token ` set (bookings d) \<longrightarrow>
            api_book d (Some ss) ev rq = Inl IntegrityError)
     \<and> b_id (new_booking d ss ev (br_seat_id rq) s e) \<notin> b_id ` set (bookings d)
     \<and> user_id (new_booking d ss ev (br_seat_id rq) s e) = sess_user_id ss
     \<and> seat_id (new_booking d ss ev (br_seat_id rq) s e) = br_seat_id rq
     \<and> start_dt (new_booking d ss ev (br_seat_id rq) s e) = s
     \<and> end_dt (new_booking d ss ev (br_seat_id rq) s e) = e
     \<and> token (new_booking d ss ev (br_seat_id rq) s e) = env_uuid4 ev
     \<and> status (new_booking d ss ev (br_seat_id rq) s e) = Booked"
proof -
  have ok: "api_book d (Some ss) ev rq =
              Inr ((b_id (new_booking d ss ev (br_seat_id rq) s e), env_uuid4 ev),
                   d\<lparr>bookings := bookings d @ [new_booking d ss ev (br_seat_id rq) s e]\<rparr>)"
    if "env_uuid4 ev \<notin> token ` set (bookings d)"
    using api_book_success [OF refl assms that] by (simp add: new_booking_def)
  have clash: "api_book d (Some ss) ev rq = Inl IntegrityError"
    if "env_uuid4 ev \<in> token ` set (bookings d)"
    using assms that by (rule api_book_token_clash)
  have fresh: "b_id (new_booking d ss ev (br_seat_id rq) s e) \<notin> b_id ` set (bookings d)"
    using last_rowid_fresh [of "bookings d"] by (simp add: new_booking_def)
  from ok clash fresh show ?thesis
    by (simp add: new_booking_def)
qed

theorem api_book_persists_witness:
  "api_book (ex_db [ex_booking 1 2 1 (at 8 0) (at 9 0) ''t1'' Booked]) (student 1)
      (ex_env (at 7 0) ''t2'') (ex_request 1 (at 9 0) (at 10 0))
     = Inr ((2, ''t2''), ex_db [ex_booking 1 2 1 (at 8 0) (at 9 0) ''t1'' Booked,
                               ex_booking 2 1 1 (at 9 0) (at 10 0) ''t2'' Booked])
   \<and> api_book (ex_db [ex_booking 1 2 1 (at 8 0) (at 9 0) ''t1'' Booked]) (student 1)
      (ex_env (at 7 0) ''t1'') (ex_request 1 (at 9 0) (at 10 0)) = Inl IntegrityError"
proof -
  let ?d = "ex_db [ex_booking 1 2 1 (at 8 0) (at 9 0) ''t1'' Booked]"
  let ?ss = "\<lparr>sess_user_id = 1, sess_is_admin = False\<rparr>"
  let ?rq = "ex_request 1 (at 9 0) (at 10 0)"
  have h1: "\<not> sess_is_admin ?ss" by simp
  have h2: "br_start ?rq = Some (at 9 0)" and h3: "br_end ?rq = Some (at 10 0)"
    by (simp_all add: ex_request_def)
  have h4: "valid_window (at 9 0) (at 10 0)"
    by (simp add: valid_window_def minute_def at_def)
  have h5: "active_bookings ?d (sess_user_id ?ss) (env_now (ex_env (at 7 0) tk)) = []" for tk
    by (simp add: active_bookings_def ex_defs)
  have h6: "seat_open ?d (br_seat_id ?rq)"
    by (simp add: seat_open_def ex_defs)
  have h7: "\<not> window_taken ?d (br_seat_id ?rq) (at 9 0) (at 10 0)"
    by (simp add: window_taken_def overlaps_def ex_defs)
  have f2: "env_uuid4 (ex_env (at 7 0) ''t2'') \<notin> token ` set (bookings ?d)"
    and f1: "env_uuid4 (ex_env (at 7 0) ''t1'') \<in> token ` set (bookings ?d)"
    by (simp_all add: ex_defs)
  from api_book_persists [OF h1 h2 h3 h4 h5 h6 h7, of "''t2''"] f2
  have "api_book ?d (Some ?ss) (ex_env (at 7 0) ''t2'') ?rq =
      Inr ((b_id (new_booking ?d ?ss (ex_env (at 7 0) ''t2'') (br_seat_id ?rq) (at 9 0) (at 10 0)),
            env_uuid4 (ex_env (at 7 0) ''t2'')),
           ?d\<lparr>bookings := bookings ?d @
              [new_booking ?d ?ss (ex_env (at 7 0) ''t2'') (br_seat_id ?rq) (at 9 0) (at 10 0)]\<rparr>)"
    by blast
  then have r1: "api_book ?d (student 1) (ex_env (at 7 0) ''t2'') ?rq
     = Inr ((2, ''t2''), ex_db [ex_booking 1 2 1 (at 8 0) (at 9 0) ''t1'' Booked,
                               ex_booking 2 1 1 (at 9 0) (at 10 0) ''t2'' Booked])"
    by (simp add: new_booking_def last_rowid_def ex_defs)
  from api_book_persists [OF h1 h2 h3 h4 h5 h6 h7, of "''t1''"] f1
  have "api_book ?d (Some ?ss) (ex_env (at 7 0) ''t1'') ?rq = Inl IntegrityError"
    by blast
  then have r2: "api_book ?d (student 1) (ex_env (at 7 0) ''t1'') ?rq = Inl IntegrityError"
    by (simp add: student_def)
  from r1 r2 show ?thesis by blast
qed

section \<open>Cancelling a booking\<close>

lemma find_id_map:
  assumes "\<And>b. b_id (f b) = b_id b"
  shows "find (\<lambda>b. b_id b = bid) (map f bs) = map_option f (find (\<lambda>b. b_id b = bid) bs)"
  using assms by (induction bs) simp_all

lemma cancel_overflow:
  assumes "\<not> sqlite_int bid"
  shows "cancel d (Some ss) bid = Inl OverflowError"
  using assms by (simp add: cancel_def login_required_def)

lemma cancel_found:
  assumes "sqlite_int bid"
    and "find (\<lambda>b. b_id b = bid) (bookings d) = Some b" and "user_id b = sess_user_id ss"
  shows "cancel d (Some ss) bid =
           Inr (d\<lparr>bookings :=
                  map (\<lambda>c. if b_id c = bid then c\<lparr>status := Cancelled\<rparr> else c) (bookings d)\<rparr>)"
  using assms by (simp add: cancel_def login_required_def)

lemma cancel_InrD:
  assumes "cancel d (Some ss) bid = Inr d'"
  obtains b where "sqlite_int bid" and "find (\<lambda>b. b_id b = bid) (bookings d) = Some b"
    and "user_id b = sess_user_id ss"
    and "d' = d\<lparr>bookings :=
                  map (\<lambda>c. if b_id c = bid then c\<lparr>status := Cancelled\<rparr> else c) (bookings d)\<rparr>"
  using assms
  by (auto simp: cancel_def login_required_def split: option.splits if_splits)

lemma cancel_twice:
  assumes "cancel d (Some ss) bid = Inr d'"
  shows "cancel d' (Some ss) bid = Inr d'"
proof -
  define f :: "booking \<Rightarrow> booking"
    where "f = (\<lambda>c. if b_id c = bid then c\<lparr>status := Cancelled\<rparr> else c)"
  have f_id: "b_id (f c) = b_id c" and f_user: "user_id (f c) = user_id c"
    and f_idem: "f (f c) = f c" for c
    by (simp_all add: f_def)
  from assms obtain b where rng: "sqlite_int bid"
    and fb: "find (\<lambda>b. b_id b = bid) (bookings d) = Some b"
    and u: "user_id b = sess_user_id ss"
    and d': "d' = d\<lparr>bookings := map f (bookings d)\<rparr>"
    unfolding f_def by (rule cancel_InrD)
  have bs: "bookings d' = map f (bookings d)"
    by (simp add: d')
  have "find (\<lambda>b. b_id b = bid) (map f (bookings d))
      = map_option f (find (\<lambda>b. b_id b = bid) (bookings d))"
    by (rule find_id_map) (rule f_id)
  then have found: "find (\<lambda>b. b_id b = bid) (bookings d') = Some (f b)"
    by (simp add: bs fb)
  have owner: "user_id (f b) = sess_user_id ss"
    using u by (simp add: f_user)
  have "cancel d' (Some ss) bid = Inr (d'\<lparr>bookings := map f (bookings d')\<rparr>)"
    using cancel_found [OF rng found owner] unfolding f_def .
  moreover have "map f (bookings d') = bookings d'"
    by (simp add: bs f_idem)
  ultimately show ?thesis by simp
qed

lemma cancel_not_owner_iff:
  assumes "sqlite_int bid"
  shows "cancel d (Some ss) bid = Inl NotOwner \<longleftrightarrow>
      (case find (\<lambda>b. b_id b = bid) (bookings d) of
         None \<Rightarrow> True | Some b \<Rightarrow> user_id b \<noteq> sess_user_id ss)"
proof (cases "find (\<lambda>b. b_id b = bid) (bookings d)")
  case None
  with assms show ?thesis by (simp add: cancel_def login_required_def)
next
  case (Some b)
  with assms show ?thesis by (simp add: cancel_def login_required_def)
qed

lemma cancel_cases:
  assumes "sqlite_int bid" and "cancel d (Some ss) bid \<noteq> Inl NotOwner"
  shows "cancel d (Some ss) bid =
          Inr (d\<lparr>bookings :=
                 map (\<lambda>c. if b_id c = bid then c\<lparr>status := Cancelled\<rparr> else c) (bookings d)\<rparr>)"
proof (cases "find (\<lambda>b. b_id b = bid) (bookings d)")
  case None
  with assms show ?thesis by (simp add: cancel_def login_required_def)
next
  case (Some b)
  with assms have "user_id b = sess_user_id ss"
    by (simp add: cancel_def login_required_def split: if_splits)
  with assms(1) Some show ?thesis by (rule cancel_found)
qed

lemma cancel_all_cancelled:
  assumes "cancel d (Some ss) bid = Inr d'" and "c \<in> set (bookings d')" and "b_id c = bid"
  shows "status c = Cancelled"
proof -
  from assms(1) obtain b :: booking where
    d': "d' = d\<lparr>bookings :=
                  map (\<lambda>c. if b_id c = bid then c\<lparr>status := Cancelled\<rparr> else c) (bookings d)\<rparr>"
    by (rule cancel_InrD)
  from assms(2) obtain c0 where "c0 \<in> set (bookings d)"
    and c: "c = (if b_id c0 = bid then c0\<lparr>status := Cancelled\<rparr> else c0)"
    unfolding d' by auto
  with assms(3) show ?thesis by (cases "b_id c0 = bid") simp_all
qed

text \<open>
  C7, as amended: for a logged-in user and a booking id that SQLite can bind (a signed
  64-bit integer), \<open>cancel\<close> answers with the not-owner error exactly when no booking has
  the id or the booking with the id belongs to another user, and succeeds in every other
  case, whatever the status of the booking. After a success every booking with the id is
  cancelled, every other booking and every other table is as before, and cancelling again
  succeeds and returns the very same store. An id outside that range makes the lookup
  raise, and nothing is changed.
\<close>

theorem cancel_outcome:
  "(sqlite_int bid \<longrightarrow>
      (cancel d (Some ss) bid = Inl NotOwner \<longleftrightarrow>
         (case find (\<lambda>b. b_id b = bid) (bookings d) of
            None \<Rightarrow> True | Some b \<Rightarrow> user_id b \<noteq> sess_user_id ss))
      \<and> (cancel d (Some ss) bid \<noteq> Inl NotOwner \<longrightarrow>
           cancel d (Some ss) bid =
             Inr (d\<lparr>bookings :=
                    map (\<lambda>c. if b_id c = bid then c\<lparr>status := Cancelled\<rparr> else c)
                        (bookings d)\<rparr>)))
   \<and> (\<not> sqlite_int bid \<longrightarrow> cancel d (Some ss) bid = Inl OverflowError)
   \<and> (\<forall>d'. cancel d (Some ss) bid = Inr d' \<longrightarrow>
        (\<forall>c \<in> set (bookings d'). b_id c = bid \<longrightarrow> status c = Cancelled)
        \<and> cancel d' (Some ss) bid = Inr d')"
  using cancel_not_owner_iff [of bid d ss] cancel_cases [of bid d ss]
    cancel_overflow [of bid d ss]
    cancel_all_cancelled [of d ss bid] cancel_twice [of d ss bid]
  by blast

theorem cancel_outcome_witness:
  "sqlite_int 1 \<and> sqlite_int 7
   \<and> cancel (ex_db [ex_booking 1 1 1 (at 8 0) (at 9 0) ''t1'' Using]) (student 1) 1
     = Inr (ex_db [ex_booking 1 1 1 (at 8 0) (at 9 0) ''t1'' Cancelled])
   \<and> cancel (ex_db [ex_booking 1 1 1 (at 8 0) (at 9 0) ''t1'' Cancelled]) (student 1) 1
     = Inr (ex_db [ex_booking 1 1 1 (at 8 0) (at 9 0) ''t1'' Cancelled])
   \<and> cancel (ex_db [ex_booking 1 1 1 (at 8 0) (at 9 0) ''t1'' Using]) (student 2) 1
     = Inl NotOwner
   \<and> cancel (ex_db [ex_booking 1 1 1 (at 8 0) (at 9 0) ''t1'' Using]) (student 1) 7
     = Inl NotOwner"
proof -
  let ?d = "ex_db [ex_booking 1 1 1 (at 8 0) (at 9 0) ''t1'' Using]"
  let ?d' = "ex_db [ex_booking 1 1 1 (at 8 0) (at 9 0) ''t1'' Cancelled]"
  let ?s1 = "\<lparr>sess_user_id = 1, sess_is_admin = False\<rparr>"
  let ?s2 = "\<lparr>sess_user_id = 2, sess_is_admin = False\<rparr>"
  have rng: "sqlite_int 1" "sqlite_int 7"
    by (simp_all add: sqlite_int_def)
  have own: "\<not> (case find (\<lambda>b. b_id b = 1) (bookings ?d) of
         None \<Rightarrow> True | Some b \<Rightarrow> user_id b \<noteq> sess_user_id ?s1)"
    by (simp add: ex_defs)
  have other: "case find (\<lambda>b. b_id b = 1) (bookings ?d) of
         None \<Rightarrow> True | Some b \<Rightarrow> user_id b \<noteq> sess_user_id ?s2"
    by (simp add: ex_defs)
  have missing: "case find (\<lambda>b. b_id b = 7) (bookings ?d) of
         None \<Rightarrow> True | Some b \<Rightarrow> user_id b \<noteq> sess_user_id ?s1"
    by (simp add: ex_defs)
  have upd: "?d\<lparr>bookings :=
       map (\<lambda>c. if b_id c = 1 then c\<lparr>status := Cancelled\<rparr> else c) (bookings ?d)\<rparr> = ?d'"
    by (simp add: ex_defs)
  from cancel_outcome [of 1 ?d ?s1] rng(1) own
  have "cancel ?d (Some ?s1) 1 = Inr (?d\<lparr>bookings :=
       map (\<lambda>c. if b_id c = 1 then c\<lparr>status := Cancelled\<rparr> else c) (bookings ?d)\<rparr>)"
    by blast
  then have r1: "cancel ?d (Some ?s1) 1 = Inr ?d'"
    unfolding upd .
  with cancel_outcome [of 1 ?d ?s1] have r2: "cancel ?d' (Some ?s1) 1 = Inr ?d'"
    by blast
  from cancel_outcome [of 1 ?d ?s2] rng(1) other
  have r3: "cancel ?d (Some ?s2) 1 = Inl NotOwner"
    by blast
  from cancel_outcome [of 7 ?d ?s1] rng(2) missing
  have r4: "cancel ?d (Some ?s1) 7 = Inl NotOwner"
    by blast
  from rng r1 r2 r3 r4 show ?thesis by (simp add: student_def)
qed

text \<open>
  The claim as stated fails at an id that the route accepts and SQLite cannot bind: no
  booking has the id 9223372036854775808, and the answer is the exception of the lookup,
  not the not-owner error.
\<close>

theorem cancel_outcome_counterexample:
  "find (\<lambda>b. b_id b = 9223372036854775808)
        (bookings (ex_db [ex_booking 1 1 1 (at 8 0) (at 9 0) ''t1'' Booked])) = None
   \<and> cancel (ex_db [ex_booking 1 1 1 (at 8 0) (at 9 0) ''t1'' Booked]) (student 1)
        9223372036854775808 = Inl OverflowError
   \<and> cancel (ex_db [ex_booking 1 1 1 (at 8 0) (at 9 0) ''t1'' Booked]) (student 1)
        9223372036854775808 \<noteq> Inl NotOwner"
  by (simp add: ex_defs cancel_def login_required_def sqlite_int_def)

section \<open>Opening and closing a seat\<close>

text \<open>
  C8: for an admin and a seat id that SQLite can bind, \<open>admin_room\<close> succeeds, whatever
  bookings the seat has. The tables of bookings, users and rooms are as before; the table of
  seats has the same length, every seat with another id is as before, and the seat with the
  id of the form keeps its other columns and gets the open flag and the note of the form.
  A seat id outside the 64-bit range names no seat that SQLite can hold; the UPDATE raises
  and the store, returned only by a success, is not touched.
\<close>

theorem admin_room_frame:
  assumes "sess_is_admin ss"
  shows "(sqlite_int (sf_seat_id f) \<longrightarrow>
       (\<exists>d'. admin_room d (Some ss) f = Inr d'
         \<and> bookings d' = bookings d \<and> users d' = users d \<and> rooms d' = rooms d
         \<and> length (seats d') = length (seats d)
         \<and> (\<forall>i < length (seats d).
              (s_id (seats d ! i) \<noteq> sf_seat_id f \<longrightarrow> seats d' ! i = seats d ! i)
            \<and> (s_id (seats d ! i) = sf_seat_id f \<longrightarrow>
                 seats d' ! i = (seats d ! i)
                   \<lparr>is_open := (if sf_is_open f = Some ''1'' then 1 else 0),
                    seat_note := Some (case sf_note f of None \<Rightarrow> [] | Some n \<Rightarrow> n)\<rparr>))))
     \<and> (\<not> sqlite_int (sf_seat_id f) \<longrightarrow> admin_room d (Some ss) f = Inl OverflowError)"
  using assms by (simp add: admin_room_def admin_required_def Let_def)

theorem admin_room_frame_witness:
  "sqlite_int 1
   \<and> admin_room (ex_db [ex_booking 1 1 1 (at 8 0) (at 9 0) ''t1'' Booked]) admin
      \<lparr>sf_seat_id = 1, sf_is_open = Some ''0'', sf_note = Some ''broken''\<rparr>
   = Inr ((ex_db [ex_booking 1 1 1 (at 8 0) (at 9 0) ''t1'' Booked])
            \<lparr>seats := [(ex_seat 1 ''A-1'' 0)\<lparr>seat_note := Some ''broken''\<rparr>,
                        ex_seat 2 ''A-2'' 1, ex_seat 3 ''A-3'' 0]\<rparr>)
   \<and> admin_room (ex_db [ex_booking 1 1 1 (at 8 0) (at 9 0) ''t1'' Booked]) admin
      \<lparr>sf_seat_id = 9223372036854775808, sf_is_open = Some ''0'', sf_note = Some ''broken''\<rparr>
   = Inl OverflowError"
proof -
  let ?d = "ex_db [ex_booking 1 1 1 (at 8 0) (at 9 0) ''t1'' Booked]"
  let ?f = "\<lparr>sf_seat_id = 1, sf_is_open = Some ''0'', sf_note = Some ''broken''\<rparr>"
  let ?g = "\<lparr>sf_seat_id = 9223372036854775808, sf_is_open = Some ''0'',
            sf_note = Some ''broken''\<rparr>"
  let ?ss = "\<lparr>sess_user_id = 3, sess_is_admin = True\<rparr>"
  have adm: "sess_is_admin ?ss" by simp
  have rng: "sqlite_int 1"
    by (simp add: sqlite_int_def)
  have rng_f: "sqlite_int (sf_seat_id ?f)" and rng_g: "\<not> sqlite_int (sf_seat_id ?g)"
    by (simp_all add: sqlite_int_def)
  from admin_room_frame [OF adm, of ?f ?d] rng_f obtain d' where
    r: "admin_room ?d (Some ?ss) ?f = Inr d'"
    and frame: "bookings d' = bookings ?d" "users d' = users ?d" "rooms d' = rooms ?d"
    and len: "length (seats d') = length (seats ?d)"
    and each: "\<forall>i < length (seats ?d).
          (s_id (seats ?d ! i) \<noteq> sf_seat_id ?f \<longrightarrow> seats d' ! i = seats ?d ! i)
        \<and> (s_id (seats ?d ! i) = sf_seat_id ?f \<longrightarrow>
             seats d' ! i = (seats ?d ! i)
               \<lparr>is_open := (if sf_is_open ?f = Some ''1'' then 1 else 0),
                seat_note := Some (case sf_note ?f of None \<Rightarrow> [] | Some n \<Rightarrow> n)\<rparr>)"
    by blast
  have "seats d' = [(ex_seat 1 ''A-1'' 0)\<lparr>seat_note := Some ''broken''\<rparr>,
                        ex_seat 2 ''A-2'' 1, ex_seat 3 ''A-3'' 0]"
  proof (rule nth_equalityI)
    show "length (seats d') = length [(ex_seat 1 ''A-1'' 0)\<lparr>seat_note := Some ''broken''\<rparr>,
                        ex_seat 2 ''A-2'' 1, ex_seat 3 ''A-3'' 0]"
      using len by (simp add: ex_db_def)
    fix i assume "i < length (seats d')"
    then have i: "i < 3" using len by (simp add: ex_db_def)
    then have "i = 0 \<or> i = 1 \<or> i = 2" by auto
    then show "seats d' ! i = [(ex_seat 1 ''A-1'' 0)\<lparr>seat_note := Some ''broken''\<rparr>,
                        ex_seat 2 ''A-2'' 1, ex_seat 3 ''A-3'' 0] ! i"
      using each by (auto simp: ex_db_def ex_seat_def)
  qed
  with frame have "d' = ?d\<lparr>seats := [(ex_seat 1 ''A-1'' 0)\<lparr>seat_note := Some ''broken''\<rparr>,
                        ex_seat 2 ''A-2'' 1, ex_seat 3 ''A-3'' 0]\<rparr>"
    by (simp add: ex_db_def)
  with r have r1: "admin_room ?d admin ?f
       = Inr (?d\<lparr>seats := [(ex_seat 1 ''A-1'' 0)\<lparr>seat_note := Some ''broken''\<rparr>,
                        ex_seat 2 ''A-2'' 1, ex_seat 3 ''A-3'' 0]\<rparr>)"
    by (simp add: admin_def)
  from admin_room_frame [OF adm, of ?g ?d] rng_g
  have "admin_room ?d (Some ?ss) ?g = Inl OverflowError"
    by blast
  then have r2: "admin_room ?d admin ?g = Inl OverflowError"
    by (simp add: admin_def)
  from rng r1 r2 show ?thesis by blast
qed

section \<open>The clock and the requested window\<close>

lemma api_book_clock:
  assumes "env_uuid4 ev' = env_uuid4 ev" and "env_timestamp ev' = env_timestamp ev"
    and "active_bookings d (sess_user_id ss) (env_now ev') = []
           \<longleftrightarrow> active_bookings d (sess_user_id ss) (env_now ev) = []"
  shows "api_book d (Some ss) ev' rq = api_book d (Some ss) ev rq"
proof (cases "existing d (sess_user_id ss) (env_now ev) = None")
  case True
  then have "existing d (sess_user_id ss) (env_now ev') = None"
    using assms(3) by (simp add: existing_None_iff)
  with True show ?thesis
    using assms(1,2)
    by (simp add: api_book_def login_required_def
        cong: option.case_cong if_cong sum.case_cong prod.case_cong)
next
  case False
  then have "existing d (sess_user_id ss) (env_now ev') \<noteq> None"
    using assms(3) by (simp add: existing_None_iff)
  with False show ?thesis
    using assms(1,2)
    by (simp add: api_book_def login_required_def
        cong: option.case_cong if_cong sum.case_cong prod.case_cong)
qed

text \<open>
  C10: \<open>api_book\<close> reads the clock only to look for an unfinished booking of the user.
  A request of a logged-in user who is not an admin and has no booking that is not
  cancelled and ends after now, for an existing open seat with no conflicting booking and a
  window on the half-hour grid with start before end, succeeds and its booking is stored
  with the status booked, wherever the window lies with respect to now, in the past
  included. And two clocks for which the user has an unfinished booking alike give the same
  answer to every request.
\<close>

theorem api_book_ignores_clock:
  "(\<not> sess_is_admin ss \<and> br_start rq = Some s \<and> br_end rq = Some e \<and> valid_window s e
      \<and> active_bookings d (sess_user_id ss) (env_now ev) = []
      \<and> seat_open d (br_seat_id rq) \<and> \<not> window_taken d (br_seat_id rq) s e
      \<and> env_uuid4 ev \<notin> token ` set (bookings d)
    \<longrightarrow> (\<exists>bid d'. api_book d (Some ss) ev rq = Inr ((bid, env_uuid4 ev), d')
           \<and> (\<exists>b \<in> set (bookings d'). b_id b = bid \<and> user_id b = sess_user_id ss
                 \<and> seat_id b = br_seat_id rq \<and> start_dt b = s \<and> end_dt b = e
                 \<and> status b = Booked)))
   \<and> (env_uuid4 ev' = env_uuid4 ev \<and> env_timestamp ev' = env_timestamp ev
      \<and> (active_bookings d (sess_user_id ss) (env_now ev') = []
            \<longleftrightarrow> active_bookings d (sess_user_id ss) (env_now ev) = [])
    \<longrightarrow> api_book d (Some ss) ev' rq = api_book d (Some ss) ev rq)"
proof (intro conjI impI)
  assume h: "\<not> sess_is_admin ss \<and> br_start rq = Some s \<and> br_end rq = Some e \<and> valid_window s e
      \<and> active_bookings d (sess_user_id ss) (env_now ev) = []
      \<and> seat_open d (br_seat_id rq) \<and> \<not> window_taken d (br_seat_id rq) s e
      \<and> env_uuid4 ev \<notin> token ` set (bookings d)"
  let ?nb = "new_booking d ss ev (br_seat_id rq) s e"
  have "api_book d (Some ss) ev rq =
           Inr ((last_rowid (bookings d) + 1, env_uuid4 ev), d\<lparr>bookings := bookings d @ [?nb]\<rparr>)"
    using h by (intro api_book_success) simp_all
  moreover have "?nb \<in> set (bookings (d\<lparr>bookings := bookings d @ [?nb]\<rparr>))"
    by simp
  moreover have "b_id ?nb = last_rowid (bookings d) + 1 \<and> user_id ?nb = sess_user_id ss
      \<and> seat_id ?nb = br_seat_id rq \<and> start_dt ?nb = s \<and> end_dt ?nb = e \<and> status ?nb = Booked"
    by (simp add: new_booking_def)
  ultimately show "\<exists>bid d'. api_book d (Some ss) ev rq = Inr ((bid, env_uuid4 ev), d')
           \<and> (\<exists>b \<in> set (bookings d'). b_id b = bid \<and> user_id b = sess_user_id ss
                 \<and> seat_id b = br_seat_id rq \<and> start_dt b = s \<and> end_dt b = e
                 \<and> status b = Booked)"
    by blast
next
  assume "env_uuid4 ev' = env_uuid4 ev \<and> env_timestamp ev' = env_timestamp ev
      \<and> (active_bookings d (sess_user_id ss) (env_now ev') = []
            \<longleftrightarrow> active_bookings d (sess_user_id ss) (env_now ev) = [])"
  then show "api_book d (Some ss) ev' rq = api_book d (Some ss) ev rq"
    by (intro api_book_clock) simp_all
qed

theorem api_book_ignores_clock_witness:
  "at 7 0 \<le> at 18 0
   \<and> (\<exists>bid d'. api_book (ex_db [ex_booking 1 1 2 (at 5 0) (at 6 0) ''t1'' Booked]) (student 1)
          (ex_env (at 18 0) ''t2'') (ex_request 1 (at 6 30) (at 7 0))
        = Inr ((bid, ''t2''), d')
      \<and> (\<exists>b \<in> set (bookings d'). b_id b = bid \<and> user_id b = 1 \<and> seat_id b = 1
            \<and> start_dt b = at 6 30 \<and> end_dt b = at 7 0 \<and> status b = Booked))
   \<and> api_book (ex_db [ex_booking 1 1 2 (at 5 0) (at 6 0) ''t1'' Booked]) (student 1)
          (ex_env (at 6 15) ''t2'') (ex_request 1 (at 6 30) (at 7 0))
     = api_book (ex_db [ex_booking 1 1 2 (at 5 0) (at 6 0) ''t1'' Booked]) (student 1)
          (ex_env (at 18 0) ''t2'') (ex_request 1 (at 6 30) (at 7 0))"
proof -
  let ?d = "ex_db [ex_booking 1 1 2 (at 5 0) (at 6 0) ''t1'' Booked]"
  let ?ss = "\<lparr>sess_user_id = 1, sess_is_admin = False\<rparr>"
  let ?ev = "ex_env (at 18 0) ''t2''"
  let ?ev' = "ex_env (at 6 15) ''t2''"
  let ?rq = "ex_request 1 (at 6 30) (at 7 0)"
  have past: "at 7 0 \<le> at 18 0"
    by (simp add: at_def)
  have h: "\<not> sess_is_admin ?ss \<and> br_start ?rq = Some (at 6 30) \<and> br_end ?rq = Some (at 7 0)
      \<and> valid_window (at 6 30) (at 7 0)
      \<and> active_bookings ?d (sess_user_id ?ss) (env_now ?ev) = []
      \<and> seat_open ?d (br_seat_id ?rq) \<and> \<not> window_taken ?d (br_seat_id ?rq) (at 6 30) (at 7 0)
      \<and> env_uuid4 ?ev \<notin> token ` set (bookings ?d)"
    by (simp add: ex_defs valid_window_def minute_def active_bookings_def seat_open_def
        window_taken_def overlaps_def)
  have h': "env_uuid4 ?ev' = env_uuid4 ?ev \<and> env_timestamp ?ev' = env_timestamp ?ev
      \<and> (active_bookings ?d (sess_user_id ?ss) (env_now ?ev') = []
            \<longleftrightarrow> active_bookings ?d (sess_user_id ?ss) (env_now ?ev) = [])"
    by (simp add: ex_defs active_bookings_def)
  note inst = api_book_ignores_clock [of ?ss ?rq "at 6 30" "at 7 0" ?d ?ev ?ev']
  from inst h have "\<exists>bid d'. api_book ?d (Some ?ss) ?ev ?rq = Inr ((bid, env_uuid4 ?ev), d')
           \<and> (\<exists>b \<in> set (bookings d'). b_id b = bid \<and> user_id b = sess_user_id ?ss
                 \<and> seat_id b = br_seat_id ?rq \<and> start_dt b = at 6 30 \<and> end_dt b = at 7 0
                 \<and> status b = Booked)"
    by blast
  then have r1: "\<exists>bid d'. api_book ?d (student 1) ?ev ?rq = Inr ((bid, ''t2''), d')
      \<and> (\<exists>b \<in> set (bookings d'). b_id b = bid \<and> user_id b = 1 \<and> seat_id b = 1
            \<and> start_dt b = at 6 30 \<and> end_dt b = at 7 0 \<and> status b = Booked)"
    by (simp add: student_def ex_env_def ex_request_def)
  from inst h' have "api_book ?d (Some ?ss) ?ev' ?rq = api_book ?d (Some ?ss) ?ev ?rq"
    by blast
  then have r2: "api_book ?d (student 1) ?ev' ?rq = api_book ?d (student 1) ?ev ?rq"
    by (simp add: student_def)
  from past r1 r2 show ?thesis by blast
qed

section \<open>Two requests for one seat\<close>

lemma api_book_two_steps:
  "api_book d sess ev rq =
     (case book_read d sess ev rq of
        Inl er \<Rightarrow> Inl er
      | Inr chk \<Rightarrow> book_write d ev rq chk)"
proof (cases sess)
  case None
  then show ?thesis
    by (simp add: api_book_def book_read_def login_required_def)
next
  case sess: (Some ss)
  show ?thesis
  proof (cases "br_start rq")
    case None
    with sess show ?thesis
      by (simp add: api_book_def book_read_def login_required_def)
  next
    case s: (Some s)
    show ?thesis
    proof (cases "br_end rq")
      case None
      with sess s show ?thesis
        by (simp add: api_book_def book_read_def login_required_def)
    next
      case e: (Some e)
      show ?thesis
      proof (cases "find (\<lambda>st. s_id st = br_seat_id rq) (seats d)")
        case None
        with sess s e show ?thesis
          by (simp add: api_book_def book_read_def login_required_def)
      next
        case (Some st)
        with sess s e show ?thesis
          by (simp add: api_book_def book_read_def book_write_def login_required_def)
      qed
    qed
  qed
qed

lemma api_book_then_taken:
  assumes ok: "api_book d sess ev rq = Inr (r, d')"
    and win: "br_start rq = Some s" "br_end rq = Some e"
    and ov: "overlaps s e s2 e2"
  shows "window_taken d' (br_seat_id rq) s2 e2"
proof -
  from ok obtain ss s' e' where s': "br_start rq = Some s'" and e': "br_end rq = Some e'"
    and d': "d' = d\<lparr>bookings := bookings d @ [new_booking d ss ev (br_seat_id rq) s' e']\<rparr>"
    by (rule api_book_InrD)
  from win s' e' have eq: "s' = s" "e' = e" by simp_all
  let ?nb = "new_booking d ss ev (br_seat_id rq) s e"
  have "?nb \<in> set (bookings d')"
    by (simp add: d' eq)
  moreover have "seat_id ?nb = br_seat_id rq \<and> status ?nb \<noteq> Cancelled
      \<and> overlaps (start_dt ?nb) (end_dt ?nb) s2 e2"
    using ov by (simp add: new_booking_def)
  ultimately show ?thesis
    unfolding window_taken_def by blast
qed

lemma one_after_other_not_both:
  assumes seat: "br_seat_id rq2 = br_seat_id rq1"
    and w1: "br_start rq1 = Some s1" "br_end rq1 = Some e1"
    and w2: "br_start rq2 = Some s2" "br_end rq2 = Some e2"
    and ov: "overlaps s1 e1 s2 e2"
  shows "one_after_other d (sess1, ev1, rq1) (sess2, ev2, rq2) \<noteq> (Inr r1, Inr r2, d')"
proof (cases "api_book d sess1 ev1 rq1")
  case (Inl er)
  then show ?thesis
    by (simp add: one_after_other_def Let_def split: sum.splits prod.splits)
next
  case (Inr p)
  obtain r d1 where p: "p = (r, d1)" by (cases p)
  have "window_taken d1 (br_seat_id rq2) s2 e2"
    using Inr [unfolded p] w1 ov unfolding seat by (rule api_book_then_taken)
  with w2 obtain er where "api_book d1 sess2 ev2 rq2 = Inl er"
    using api_book_taken_rejected [of rq2 s2 e2 d1 sess2 ev2] by blast
  with Inr p show ?thesis
    by (simp add: one_after_other_def)
qed

text \<open>
  C9, as amended: a call of \<open>api_book\<close> is its checks followed by its INSERT on the same
  store, and of two calls for overlapping windows on the same seat that run one after the
  other, in either order, at most one succeeds. Nothing makes the checks and the INSERT of
  a call atomic with respect to a call that runs at the same time.
\<close>

theorem bookings_exclusive_in_sequence:
  "api_book d sess1 ev1 rq1 =
     (case book_read d sess1 ev1 rq1 of
        Inl er \<Rightarrow> Inl er
      | Inr chk \<Rightarrow> book_write d ev1 rq1 chk)
   \<and> (br_seat_id rq2 = br_seat_id rq1
        \<and> br_start rq1 = Some s1 \<and> br_end rq1 = Some e1
        \<and> br_start rq2 = Some s2 \<and> br_end rq2 = Some e2
        \<and> overlaps s1 e1 s2 e2
      \<longrightarrow> one_after_other d (sess1, ev1, rq1) (sess2, ev2, rq2) \<noteq> (Inr r1, Inr r2, d')
        \<and> one_after_other d (sess2, ev2, rq2) (sess1, ev1, rq1) \<noteq> (Inr r2, Inr r1, d'))"
proof (intro conjI impI)
  show "api_book d sess1 ev1 rq1 =
     (case book_read d sess1 ev1 rq1 of
        Inl er \<Rightarrow> Inl er
      | Inr chk \<Rightarrow> book_write d ev1 rq1 chk)"
    by (rule api_book_two_steps)
next
  assume h: "br_seat_id rq2 = br_seat_id rq1
        \<and> br_start rq1 = Some s1 \<and> br_end rq1 = Some e1
        \<and> br_start rq2 = Some s2 \<and> br_end rq2 = Some e2
        \<and> overlaps s1 e1 s2 e2"
  then have seat: "br_seat_id rq2 = br_seat_id rq1"
    and w1: "br_start rq1 = Some s1" "br_end rq1 = Some e1"
    and w2: "br_start rq2 = Some s2" "br_end rq2 = Some e2"
    and ov: "overlaps s1 e1 s2 e2"
    by blast+
  from ov have ov': "overlaps s2 e2 s1 e1"
    by (auto simp: overlaps_def)
  from seat w1 w2 ov
  show "one_after_other d (sess1, ev1, rq1) (sess2, ev2, rq2) \<noteq> (Inr r1, Inr r2, d')"
    by (rule one_after_other_not_both)
  from seat [symmetric] w2 w1 ov'
  show "one_after_other d (sess2, ev2, rq2) (sess1, ev1, rq1) \<noteq> (Inr r2, Inr r1, d')"
    by (rule one_after_other_not_both)
qed

theorem bookings_exclusive_in_sequence_witness:
  "overlaps (at 8 0) (at 9 0) (at 8 30) (at 9 30)
   \<and> one_after_other (ex_db [])
        (student 1, ex_env (at 7 0) ''t1'', ex_request 1 (at 8 0) (at 9 0))
        (student 2, ex_env (at 7 0) ''t2'', ex_request 1 (at 8 30) (at 9 30))
     = (Inr (1, ''t1''), Inl SeatConflict,
        ex_db [ex_booking 1 1 1 (at 8 0) (at 9 0) ''t1'' Booked])
   \<and> one_after_other (ex_db [])
        (student 1, ex_env (at 7 0) ''t1'', ex_request 1 (at 8 0) (at 9 0))
        (student 2, ex_env (at 7 0) ''t2'', ex_request 1 (at 8 30) (at 9 30))
     \<noteq> (Inr (1, ''t1''), Inr (2, ''t2''),
        ex_db [ex_booking 1 1 1 (at 8 0) (at 9 0) ''t1'' Booked,
               ex_booking 2 2 1 (at 8 30) (at 9 30) ''t2'' Booked])"
proof -
  let ?rq1 = "ex_request 1 (at 8 0) (at 9 0)"
  let ?rq2 = "ex_request 1 (at 8 30) (at 9 30)"
  have ov: "overlaps (at 8 0) (at 9 0) (at 8 30) (at 9 30)"
    by (simp add: overlaps_def at_def)
  have h: "br_seat_id ?rq2 = br_seat_id ?rq1
        \<and> br_start ?rq1 = Some (at 8 0) \<and> br_end ?rq1 = Some (at 9 0)
        \<and> br_start ?rq2 = Some (at 8 30) \<and> br_end ?rq2 = Some (at 9 30)
        \<and> overlaps (at 8 0) (at 9 0) (at 8 30) (at 9 30)"
    using ov by (simp add: ex_request_def)
  have run: "one_after_other (ex_db [])
        (student 1, ex_env (at 7 0) ''t1'', ?rq1) (student 2, ex_env (at 7 0) ''t2'', ?rq2)
     = (Inr (1, ''t1''), Inl SeatConflict,
        ex_db [ex_booking 1 1 1 (at 8 0) (at 9 0) ''t1'' Booked])"
    by (simp add: one_after_other_def ex_defs op_defs)
  from bookings_exclusive_in_sequence
    [of "ex_db []" "student 1" "ex_env (at 7 0) ''t1''" ?rq1 ?rq2 "at 8 0" "at 9 0"
        "at 8 30" "at 9 30" "student 2" "ex_env (at 7 0) ''t2''" "(1, ''t1'')" "(2, ''t2'')"
        "ex_db [ex_booking 1 1 1 (at 8 0) (at 9 0) ''t1'' Booked,
                ex_booking 2 2 1 (at 8 30) (at 9 30) ''t2'' Booked]"] h
  have "one_after_other (ex_db [])
        (student 1, ex_env (at 7 0) ''t1'', ?rq1) (student 2, ex_env (at 7 0) ''t2'', ?rq2)
     \<noteq> (Inr (1, ''t1''), Inr (2, ''t2''),
        ex_db [ex_booking 1 1 1 (at 8 0) (at 9 0) ''t1'' Booked,
               ex_booking 2 2 1 (at 8 30) (at 9 30) ''t2'' Booked])"
    by blast
  with ov run show ?thesis by blast
qed

text \<open>
  The claim as stated fails: two students ask for seat 1, from 08:00 to 09:00 and from
  08:30 to 09:30, at the same time, and each request has done its checks on the empty
  store before either writes. Both requests succeed, and the seat has two overlapping
  bookings that are not cancelled.
\<close>

theorem bookings_exclusive_counterexample:
  "overlaps (at 8 0) (at 9 0) (at 8 30) (at 9 30)
   \<and> both_read_first (ex_db [])
        (student 1, ex_env (at 7 0) ''t1'', ex_request 1 (at 8 0) (at 9 0))
        (student 2, ex_env (at 7 0) ''t2'', ex_request 1 (at 8 30) (at 9 30))
     = (Inr (1, ''t1''), Inr (2, ''t2''),
        ex_db [ex_booking 1 1 1 (at 8 0) (at 9 0) ''t1'' Booked,
               ex_booking 2 2 1 (at 8 30) (at 9 30) ''t2'' Booked])
   \<and> \<not> seat_disjoint (ex_db [ex_booking 1 1 1 (at 8 0) (at 9 0) ''t1'' Booked,
                             ex_booking 2 2 1 (at 8 30) (at 9 30) ''t2'' Booked]) 1"
  by (simp add: both_read_first_def book_read_def book_write_def ex_defs op_defs
      seat_disjoint_def intervals_disjoint_def)

end
